theory Spec2Isabelle
  imports Complex_Main
begin

section \<open>Interactive ripples: the ripple registry and the fragment shaders\<close>

text \<open>
  The repository has two variants of one program. The basic variant is the class
  \<open>InteractiveRipples\<close> with a 10-slot ripple buffer and a black and white shader;
  the elaborated variant is the class \<open>EnhancedInteractiveRipples\<close> with a 16-slot
  buffer, an active-ripple counter and a coloured shader.

  Numbers (JavaScript doubles, the \<open>Float32Array\<close> of spawn times, GLSL \<open>highp float\<close>)
  are modelled as real numbers: rounding, overflow, infinities and NaN are outside the
  model, and so is division by zero. A theorem about a value that the shader computes
  through a division by a uniform carries the hypothesis that the divisor is not zero.
  A \<open>vec2\<close> is a pair, a \<open>vec3\<close> a triple.

  Two consequences limit what is stated about the real-valued definitions. The shader's
  \<open>exp\<close> underflows to exactly 0 for large negative arguments, so no theorem states that
  a contribution is positive (only that it is not negative), and the decay of the
  attenuation in time is stated for a second embedding of the attenuation, in which
  every operation is rounded to binary32. The value of \<open>blueNoise\<close> at a pixel is a sum
  of sines multiplied by 43758.5453123, which amplifies the error of the sine (which
  GLSL leaves to the implementation) beyond the width of the unit interval, so no
  theorem states the value of \<open>blueNoise\<close> at a pixel; only its range is used.
\<close>

type_synonym vec2 = "real \<times> real"
type_synonym vec3 = "real \<times> real \<times> real"
type_synonym vec4 = "real \<times> real \<times> real \<times> real"

subsection \<open>State of the two classes\<close>

text \<open>
  The fields of \<open>this.uniforms\<close> and the write cursor \<open>clickIndex\<close>. Each slot of
  \<open>uClickPos\<close> is a \<open>Vector2\<close> object of its own (\<open>Array.from\<close> with a factory), so
  the array is a list of pairs without aliasing.
\<close>

record InteractiveRipples =
  uResolution :: vec2
  uClickPos :: "vec2 list"
  uClickTimes :: "real list"
  uTime :: real
  clickIndex :: nat

text \<open>
  The elaborated class adds the counter \<open>activeRipples\<close>, \<open>params.maxRipples\<close> and the
  style uniforms.
\<close>

record EnhancedInteractiveRipples = InteractiveRipples +
  activeRipples :: int
  maxRipples :: int
  uColor1 :: vec3
  uColor2 :: vec3
  uBackgroundColor :: vec3
  uPixelSize :: real
  uWaveSpeed :: real
  uWaveThickness :: real
  uTimeDecay :: real
  uDistanceDecay :: real
  uBloomStrength :: real
  uAnimatedBackground :: bool

text \<open>Indexing \<open>uClickPos.value\<close> out of range gives \<open>undefined\<close>, and \<open>.set\<close> on it throws.\<close>

datatype error = TypeError

definition MAX_CLICKS :: nat where
  "MAX_CLICKS = 10"

definition MAX_CLICKS_E :: nat where
  "MAX_CLICKS_E = 16"

text \<open>The slot value written by the constructors and by the clear operations.\<close>

definition sentinel :: vec2 where
  "sentinel = (-1, -1)"

text \<open>The shaders' test for a slot to skip: \<open>pos.x < 0.0 && pos.y < 0.0\<close>.\<close>

definition empty_slot :: "vec2 \<Rightarrow> bool" where
  "empty_slot pos = (fst pos < 0 \<and> snd pos < 0)"

subsection \<open>Basic variant: \<open>InteractiveRipples\<close>\<close>

text \<open>The field initialisers of the class; \<open>new Vector2()\<close> is the zero vector.\<close>

definition init :: InteractiveRipples where
  "init = \<lparr> uResolution = (0, 0),
            uClickPos = replicate MAX_CLICKS sentinel,
            uClickTimes = replicate MAX_CLICKS 0,
            uTime = 0,
            clickIndex = 0 \<rparr>"

text \<open>
  \<open>addRipple\<close>: the \<open>Vector2\<close> at the cursor is set, the spawn time is stored (a typed
  array ignores a store out of range, as \<open>list_update\<close> does), the cursor advances.
\<close>

definition addRipple :: "real \<Rightarrow> real \<Rightarrow> InteractiveRipples \<Rightarrow> error + InteractiveRipples" where
  "addRipple x y s =
     (if clickIndex s < length (uClickPos s)
      then Inr (s\<lparr> uClickPos := (uClickPos s)[clickIndex s := (x, y)],
                  uClickTimes := (uClickTimes s)[clickIndex s := uTime s],
                  clickIndex := (clickIndex s + 1) mod MAX_CLICKS \<rparr>)
      else Inl TypeError)"

text \<open>\<open>clearRipples\<close>: \<open>forEach\<close> over the positions and \<open>fill(0)\<close> over the times.\<close>

definition clearRipples :: "InteractiveRipples \<Rightarrow> InteractiveRipples" where
  "clearRipples s =
     s\<lparr> uClickPos := map (\<lambda>pos. sentinel) (uClickPos s),
        uClickTimes := map (\<lambda>t. 0) (uClickTimes s) \<rparr>"

text \<open>\<open>animate\<close>: the frame callback stores the clock reading \<open>t\<close> in \<open>uTime\<close>.\<close>

definition animate :: "real \<Rightarrow> 'a InteractiveRipples_scheme \<Rightarrow> 'a InteractiveRipples_scheme" where
  "animate t s = s\<lparr> uTime := t \<rparr>"

subsection \<open>Elaborated variant: \<open>EnhancedInteractiveRipples\<close>\<close>

text \<open>
  The initial colours are \<open>#00aaff\<close>, \<open>#ffffff\<close> and \<open>#001122\<close>, given by their
  nominal components; a conversion to a linear working colour space by the rendering
  library would change the components other than 0 and 1. The theorems below depend on
  the red components only, which are 0, 1 and 0.
\<close>

definition init_E :: EnhancedInteractiveRipples where
  "init_E = \<lparr> uResolution = (0, 0),
              uClickPos = replicate MAX_CLICKS_E sentinel,
              uClickTimes = replicate MAX_CLICKS_E 0,
              uTime = 0,
              clickIndex = 0,
              activeRipples = 0,
              maxRipples = 16,
              uColor1 = (0, 170 / 255, 1),
              uColor2 = (1, 1, 1),
              uBackgroundColor = (0, 17 / 255, 34 / 255),
              uPixelSize = 4,
              uWaveSpeed = 35 / 100,
              uWaveThickness = 12 / 100,
              uTimeDecay = 8 / 10,
              uDistanceDecay = 12 / 10,
              uBloomStrength = 3 / 10,
              uAnimatedBackground = True \<rparr>"

text \<open>
  \<open>addRipple\<close> of the elaborated class: when the counter has reached \<open>maxRipples\<close> the
  slot at the cursor is first reset and the counter decremented; then the slot is
  written as in the basic variant and the counter incremented.
\<close>

definition addRipple_E ::
  "real \<Rightarrow> real \<Rightarrow> EnhancedInteractiveRipples \<Rightarrow> error + EnhancedInteractiveRipples" where
  "addRipple_E x y s =
     (if clickIndex s < length (uClickPos s)
      then
        let s1 = (if activeRipples s \<ge> maxRipples s
                  then s\<lparr> uClickPos := (uClickPos s)[clickIndex s := sentinel],
                          activeRipples := activeRipples s - 1 \<rparr>
                  else s)
        in Inr (s1\<lparr> uClickPos := (uClickPos s1)[clickIndex s1 := (x, y)],
                    uClickTimes := (uClickTimes s1)[clickIndex s1 := uTime s1],
                    clickIndex := (clickIndex s1 + 1) mod MAX_CLICKS_E,
                    activeRipples := activeRipples s1 + 1 \<rparr>)
      else Inl TypeError)"

definition clearAllRipples :: "EnhancedInteractiveRipples \<Rightarrow> EnhancedInteractiveRipples" where
  "clearAllRipples s =
     s\<lparr> uClickPos := map (\<lambda>pos. sentinel) (uClickPos s),
        uClickTimes := map (\<lambda>t. 0) (uClickTimes s),
        activeRipples := 0,
        clickIndex := 0 \<rparr>"

subsection \<open>Sequences of insertions\<close>

text \<open>
  An insertion as the application performs it: a frame has stored the clock reading
  \<open>t\<close>, then a pointer event at \<open>(x, y)\<close> calls \<open>addRipple\<close>. A ripple record is the
  triple \<open>(x, y, t)\<close>.
\<close>

type_synonym ripple = "real \<times> real \<times> real"

fun inserts :: "ripple list \<Rightarrow> InteractiveRipples \<Rightarrow> error + InteractiveRipples" where
  "inserts [] s = Inr s"
| "inserts ((x, y, t) # rs) s =
     (case addRipple x y (animate t s) of
        Inl e \<Rightarrow> Inl e
      | Inr s' \<Rightarrow> inserts rs s')"

fun inserts_E ::
  "ripple list \<Rightarrow> EnhancedInteractiveRipples \<Rightarrow> error + EnhancedInteractiveRipples" where
  "inserts_E [] s = Inr s"
| "inserts_E ((x, y, t) # rs) s =
     (case addRipple_E x y (animate t s) of
        Inl e \<Rightarrow> Inl e
      | Inr s' \<Rightarrow> inserts_E rs s')"

text \<open>The record held by slot \<open>i\<close>: its position and its spawn time.\<close>

definition slot :: "'a InteractiveRipples_scheme \<Rightarrow> nat \<Rightarrow> ripple" where
  "slot s i = (fst (uClickPos s ! i), snd (uClickPos s ! i), uClickTimes s ! i)"

text \<open>
  The events that reach the elaborated registry: a pointer, touch or space-key event
  calls \<open>addRipple\<close>, the \<open>R\<close> key or the panel button calls
  \<open>clearAllRipples\<close>, and every frame stores the clock reading.
\<close>

datatype event = Click real real | ClearAll | Frame real

fun handle_E :: "event \<Rightarrow> EnhancedInteractiveRipples \<Rightarrow> error + EnhancedInteractiveRipples" where
  "handle_E (Click x y) s = addRipple_E x y s"
| "handle_E ClearAll s = Inr (clearAllRipples s)"
| "handle_E (Frame t) s = Inr (animate t s)"

fun run_E :: "event list \<Rightarrow> EnhancedInteractiveRipples \<Rightarrow> error + EnhancedInteractiveRipples" where
  "run_E [] s = Inr s"
| "run_E (e # es) s =
     (case handle_E e s of
        Inl err \<Rightarrow> Inl err
      | Inr s' \<Rightarrow> run_E es s')"

subsection \<open>GLSL built-ins on real numbers\<close>

definition vsub :: "vec2 \<Rightarrow> vec2 \<Rightarrow> vec2" where
  "vsub a b = (fst a - fst b, snd a - snd b)"

definition vsubs :: "vec2 \<Rightarrow> real \<Rightarrow> vec2" where
  "vsubs a c = (fst a - c, snd a - c)"

definition vadd :: "vec2 \<Rightarrow> vec2 \<Rightarrow> vec2" where
  "vadd a b = (fst a + fst b, snd a + snd b)"

definition vmul :: "vec2 \<Rightarrow> vec2 \<Rightarrow> vec2" where
  "vmul a b = (fst a * fst b, snd a * snd b)"

definition vdiv :: "vec2 \<Rightarrow> vec2 \<Rightarrow> vec2" where
  "vdiv a b = (fst a / fst b, snd a / snd b)"

definition vscale :: "real \<Rightarrow> vec2 \<Rightarrow> vec2" where
  "vscale c a = (c * fst a, c * snd a)"

definition vdivs :: "vec2 \<Rightarrow> real \<Rightarrow> vec2" where
  "vdivs a c = (fst a / c, snd a / c)"

definition floor2 :: "vec2 \<Rightarrow> vec2" where
  "floor2 a = (of_int \<lfloor>fst a\<rfloor>, of_int \<lfloor>snd a\<rfloor>)"

definition fract :: "real \<Rightarrow> real" where
  "fract x = x - of_int \<lfloor>x\<rfloor>"

definition dot :: "vec2 \<Rightarrow> vec2 \<Rightarrow> real" where
  "dot a b = fst a * fst b + snd a * snd b"

definition distance :: "vec2 \<Rightarrow> vec2 \<Rightarrow> real" where
  "distance a b = sqrt ((fst a - fst b)\<^sup>2 + (snd a - snd b)\<^sup>2)"

definition step :: "real \<Rightarrow> real \<Rightarrow> real" where
  "step edge x = (if x < edge then 0 else 1)"

definition clamp :: "real \<Rightarrow> real \<Rightarrow> real \<Rightarrow> real" where
  "clamp x lo hi = min (max x lo) hi"

definition smoothstep :: "real \<Rightarrow> real \<Rightarrow> real \<Rightarrow> real" where
  "smoothstep e0 e1 x = (let t = clamp ((x - e0) / (e1 - e0)) 0 1 in t * t * (3 - 2 * t))"

definition mix :: "vec3 \<Rightarrow> vec3 \<Rightarrow> real \<Rightarrow> vec3" where
  "mix a b t =
     (case a of (a1, a2, a3) \<Rightarrow> case b of (b1, b2, b3) \<Rightarrow>
        (a1 * (1 - t) + b1 * t, a2 * (1 - t) + b2 * t, a3 * (1 - t) + b3 * t))"

definition vscale3 :: "real \<Rightarrow> vec3 \<Rightarrow> vec3" where
  "vscale3 c a = (case a of (a1, a2, a3) \<Rightarrow> (c * a1, c * a2, c * a3))"

definition vadd3 :: "vec3 \<Rightarrow> vec3 \<Rightarrow> vec3" where
  "vadd3 a b =
     (case a of (a1, a2, a3) \<Rightarrow> case b of (b1, b2, b3) \<Rightarrow> (a1 + b1, a2 + b2, a3 + b3))"

text \<open>
  The only use of \<open>pow\<close> in the shaders is \<open>pow(e, 2.0)\<close>, written here as the
  square \<open>e\<^sup>2\<close>. (GLSL leaves \<open>pow\<close> undefined for a negative base; the model takes
  the mathematical value, which is also what the specification states.)
\<close>

subsection \<open>Bayer matrices (both shaders)\<close>

definition Bayer2 :: "vec2 \<Rightarrow> real" where
  "Bayer2 a = (let a = floor2 a in fract (fst a / 2 + snd a * snd a * 0.75))"

definition Bayer4 :: "vec2 \<Rightarrow> real" where
  "Bayer4 a = Bayer2 (vscale 0.5 a) * 0.25 + Bayer2 a"

definition Bayer8 :: "vec2 \<Rightarrow> real" where
  "Bayer8 a = Bayer4 (vscale 0.5 a) * 0.25 + Bayer2 a"

definition Bayer16 :: "vec2 \<Rightarrow> real" where
  "Bayer16 a = Bayer8 (vscale 0.5 a) * 0.25 + Bayer2 a"

subsection \<open>Coordinates (both shaders)\<close>

text \<open>\<open>fragCoord = gl_FragCoord.xy - uResolution * 0.5\<close>\<close>

definition fragCoord_of :: "vec2 \<Rightarrow> vec2 \<Rightarrow> vec2" where
  "fragCoord_of res gl = vsub gl (vscale 0.5 res)"

text \<open>The sample point \<open>uv\<close> of the supercell that holds \<open>fragCoord\<close>.\<close>

definition uv_of :: "vec2 \<Rightarrow> real \<Rightarrow> vec2 \<Rightarrow> vec2" where
  "uv_of res cellPixelSize fragCoord =
     (let aspectRatio = fst res / snd res;
          cellId = floor2 (vdivs fragCoord cellPixelSize);
          cellCoord = vscale cellPixelSize cellId
      in vmul (vdiv cellCoord res) (aspectRatio, 1))"

text \<open>The ripple centre \<open>cuv\<close> of a stored position \<open>pos\<close>.\<close>

definition cuv_of :: "vec2 \<Rightarrow> real \<Rightarrow> vec2 \<Rightarrow> vec2" where
  "cuv_of res cellPixelSize pos =
     (let aspectRatio = fst res / snd res
      in vmul (vdiv (vsubs (vsub pos (vscale 0.5 res)) (cellPixelSize * 0.5)) res)
           (aspectRatio, 1))"

subsection \<open>Basic fragment shader\<close>

definition PIXEL_SIZE :: real where
  "PIXEL_SIZE = 4"

definition speed :: real where
  "speed = 0.30"

definition thickness :: real where
  "thickness = 0.10"

definition dampT :: real where
  "dampT = 1"

definition dampR :: real where
  "dampR = 1"

text \<open>The loop body for elapsed time \<open>t\<close> and radial distance \<open>r\<close>.\<close>

definition ring :: "real \<Rightarrow> real \<Rightarrow> real" where
  "ring t r = (let waveR = speed * t in exp (- (((r - waveR) / thickness)\<^sup>2)))"

definition atten :: "real \<Rightarrow> real \<Rightarrow> real" where
  "atten t r = exp (- dampT * t) * exp (- dampR * r)"

definition contribution :: "'a InteractiveRipples_scheme \<Rightarrow> vec2 \<Rightarrow> nat \<Rightarrow> real" where
  "contribution u uv i =
     (let cellPixelSize = 8 * PIXEL_SIZE;
          pos = uClickPos u ! i;
          cuv = cuv_of (uResolution u) cellPixelSize pos;
          t = max (uTime u - uClickTimes u ! i) 0;
          r = distance uv cuv
      in ring t r * atten t r)"

text \<open>The loop over the slots: an empty slot is skipped, the others combine by \<open>max\<close>.\<close>

definition feed :: "'a InteractiveRipples_scheme \<Rightarrow> vec2 \<Rightarrow> real" where
  "feed u uv =
     fold (\<lambda>i f. if empty_slot (uClickPos u ! i) then f else max f (contribution u uv i))
       [0..<MAX_CLICKS] 0"

definition main :: "'a InteractiveRipples_scheme \<Rightarrow> vec2 \<Rightarrow> vec4" where
  "main u gl =
     (let pixelSize = PIXEL_SIZE;
          fragCoord = fragCoord_of (uResolution u) gl;
          cellPixelSize = 8 * pixelSize;
          uv = uv_of (uResolution u) cellPixelSize fragCoord;
          bayerValue = Bayer8 (vdivs fragCoord pixelSize) - 0.5;
          bw = step 0.5 (feed u uv + bayerValue)
      in (bw, bw, bw, 1))"

subsection \<open>Elaborated fragment shader\<close>

definition CELL_PIXEL_SIZE :: real where
  "CELL_PIXEL_SIZE = 8"

definition blueNoise :: "vec2 \<Rightarrow> real" where
  "blueNoise coord =
     (let p = vscale 0.01 coord
      in fract (sin (dot p (127.1, 311.7)) * 43758.5453123 +
                sin (dot p (269.5, 183.3)) * 43758.5453123))"

definition calculateWave :: "vec2 \<Rightarrow> vec2 \<Rightarrow> real \<Rightarrow> real \<Rightarrow> real \<Rightarrow> real" where
  "calculateWave pos center time waveSpeed thick =
     (let dst = distance pos center;
          waveRadius = waveSpeed * time;
          wavePhase = 6.28318 * (dst - waveRadius) / thick;
          wave = exp (- (((dst - waveRadius) / thick)\<^sup>2))
      in wave * ((1 + 0.3 * sin (wavePhase * 2)) * 0.7))"

definition getAnimatedBackground :: "EnhancedInteractiveRipples \<Rightarrow> vec2 \<Rightarrow> vec3" where
  "getAnimatedBackground u uv =
     (if \<not> uAnimatedBackground u then uBackgroundColor u
      else
        let animUV = vadd uv (vscale 0.1 (sin (uTime u * 0.3), cos (uTime u * 0.2)));
            gradient = smoothstep 0 1 (snd animUV + sin (fst animUV * 3.14159) * 0.2)
        in mix (uBackgroundColor u) (vscale3 1.5 (uBackgroundColor u)) (gradient * 0.3))"

definition timeAttenuation :: "EnhancedInteractiveRipples \<Rightarrow> real \<Rightarrow> real" where
  "timeAttenuation u timeSinceClick = exp (- uTimeDecay u * timeSinceClick)"

definition distanceAttenuation :: "EnhancedInteractiveRipples \<Rightarrow> real \<Rightarrow> real" where
  "distanceAttenuation u dst = exp (- uDistanceDecay u * dst)"

text \<open>\<open>finalWave\<close> of slot \<open>i\<close> at the sample point \<open>uv\<close>.\<close>

definition finalWave :: "EnhancedInteractiveRipples \<Rightarrow> vec2 \<Rightarrow> nat \<Rightarrow> real" where
  "finalWave u uv i =
     (let cellPixelSize = CELL_PIXEL_SIZE * uPixelSize u;
          pos = uClickPos u ! i;
          cuv = cuv_of (uResolution u) cellPixelSize pos;
          timeSinceClick = max (uTime u - uClickTimes u ! i) 0;
          dst = distance uv cuv;
          wave = calculateWave uv cuv timeSinceClick (uWaveSpeed u) (uWaveThickness u)
      in wave * timeAttenuation u timeSinceClick * distanceAttenuation u dst)"

text \<open>The loop carries the pair \<open>(totalWave, maxIntensity)\<close>.\<close>

definition ripples_E :: "EnhancedInteractiveRipples \<Rightarrow> vec2 \<Rightarrow> real \<times> real" where
  "ripples_E u uv =
     fold (\<lambda>i (totalWave, maxIntensity).
             if empty_slot (uClickPos u ! i) then (totalWave, maxIntensity)
             else (max totalWave (finalWave u uv i), max maxIntensity (finalWave u uv i)))
       [0..<MAX_CLICKS_E] (0, 0)"

definition totalWave :: "EnhancedInteractiveRipples \<Rightarrow> vec2 \<Rightarrow> real" where
  "totalWave u uv = fst (ripples_E u uv)"

definition maxIntensity :: "EnhancedInteractiveRipples \<Rightarrow> vec2 \<Rightarrow> real" where
  "maxIntensity u uv = snd (ripples_E u uv)"

text \<open>The dither value after \<open>ditherValue -= 0.5\<close>.\<close>

definition ditherValue :: "real \<Rightarrow> vec2 \<Rightarrow> real" where
  "ditherValue intensity coord =
     (if intensity > 0.8 then Bayer16 coord
      else if intensity > 0.6 then Bayer8 coord
      else if intensity > 0.3 then Bayer4 coord
      else blueNoise coord) - 0.5"

definition main_E :: "EnhancedInteractiveRipples \<Rightarrow> vec2 \<Rightarrow> vec4" where
  "main_E u gl =
     (let pixelSize = uPixelSize u;
          fragCoord = fragCoord_of (uResolution u) gl;
          cellPixelSize = CELL_PIXEL_SIZE * pixelSize;
          uv = uv_of (uResolution u) cellPixelSize fragCoord;
          dither = ditherValue (maxIntensity u uv) (vdivs fragCoord pixelSize);
          thresholdValue = totalWave u uv + dither;
          rippleStrength = smoothstep 0.3 0.7 thresholdValue;
          backgroundColor = getAnimatedBackground u uv;
          rippleColor = mix (uColor1 u) (uColor2 u) rippleStrength;
          finalColor = mix backgroundColor rippleColor rippleStrength;
          finalColor = (if rippleStrength > 0.5
                        then vadd3 finalColor
                               (vscale3 (uBloomStrength u * (rippleStrength - 0.5) * 2) rippleColor)
                        else finalColor)
      in case finalColor of (r, g, b) \<Rightarrow> (r, g, b, 1))"

text \<open>\<open>resize\<close> stores the drawable size.\<close>

definition resize :: "real \<Rightarrow> real \<Rightarrow> 'a InteractiveRipples_scheme \<Rightarrow> 'a InteractiveRipples_scheme" where
  "resize width height s = s\<lparr> uResolution := (width, height) \<rparr>"

subsection \<open>Binary32 arithmetic of the attenuation\<close>

text \<open>
  Both shaders declare \<open>precision highp float\<close>, the IEEE binary32 format. Where a
  property depends on rounding, the expression is embedded a second time with every
  operation rounded. A float is the real number it denotes; \<open>round32\<close> rounds a real
  number to the nearest float, ties to even, subnormal numbers included (the least
  positive float is \<open>2 powr - 149\<close>); negation is exact. \<open>rne\<close> rounds to the nearest
  integer, ties to even; \<open>expo32\<close> is the exponent of the binade, at least \<open>- 126\<close>;
  \<open>ulp32\<close> is the spacing of the floats there. \<open>exp\<close> is taken as correctly rounded.
  Overflow, infinities and NaN are not modelled: these definitions are the shader's
  arithmetic as long as every result is below \<open>2 powr 128\<close> in magnitude.
\<close>

definition rne :: "real \<Rightarrow> int" where
  "rne x = (let n = \<lfloor>x\<rfloor>; r = x - of_int n
            in if r < 1 / 2 then n else if 1 / 2 < r then n + 1 else if even n then n else n + 1)"

definition expo32 :: "real \<Rightarrow> int" where
  "expo32 x = max (- 126) \<lfloor>log 2 \<bar>x\<bar>\<rfloor>"

definition ulp32 :: "real \<Rightarrow> real" where
  "ulp32 x = 2 powr of_int (expo32 x - 23)"

definition round32 :: "real \<Rightarrow> real" where
  "round32 x = sgn x * (of_int (rne (\<bar>x\<bar> / ulp32 x)) * ulp32 x)"

text \<open>
  The basic shader: \<open>atten = exp(-dampT * t) * exp(-dampR * r)\<close>, and \<open>ring * atten\<close> for
  a value \<open>ring\<close> of the ring term.
\<close>

definition atten32 :: "real \<Rightarrow> real \<Rightarrow> real" where
  "atten32 t r =
     round32 (round32 (exp (round32 (- dampT * t))) * round32 (exp (round32 (- dampR * r))))"

definition contribution32 :: "real \<Rightarrow> real \<Rightarrow> real \<Rightarrow> real" where
  "contribution32 ring32 t r = round32 (ring32 * atten32 t r)"

text \<open>
  The elaborated shader: \<open>timeAttenuation\<close>, \<open>distanceAttenuation\<close> and
  \<open>finalWave = wave * timeAttenuation * distanceAttenuation\<close> for a value \<open>wave\<close> of the
  wave term.
\<close>

definition timeAttenuation32 :: "EnhancedInteractiveRipples \<Rightarrow> real \<Rightarrow> real" where
  "timeAttenuation32 u timeSinceClick = round32 (exp (round32 (- uTimeDecay u * timeSinceClick)))"

definition distanceAttenuation32 :: "EnhancedInteractiveRipples \<Rightarrow> real \<Rightarrow> real" where
  "distanceAttenuation32 u dst = round32 (exp (round32 (- uDistanceDecay u * dst)))"

definition finalWave32 :: "EnhancedInteractiveRipples \<Rightarrow> real \<Rightarrow> real \<Rightarrow> real \<Rightarrow> real" where
  "finalWave32 u wave timeSinceClick dst =
     round32 (round32 (wave * timeAttenuation32 u timeSinceClick) * distanceAttenuation32 u dst)"

subsection \<open>Notions used to state the properties\<close>

text \<open>A resolution by which the shaders can divide.\<close>

definition nonzero :: "vec2 \<Rightarrow> bool" where
  "nonzero v = (fst v \<noteq> 0 \<and> snd v \<noteq> 0)"

text \<open>The number of slots that the shaders do not skip.\<close>

definition active_count :: "'a InteractiveRipples_scheme \<Rightarrow> nat" where
  "active_count s = length (filter (\<lambda>pos. \<not> empty_slot pos) (uClickPos s))"

text \<open>
  The invariant of the elaborated registry while \<open>maxRipples\<close> is the capacity, as the
  class initialises it and never changes it: the first \<open>activeRipples\<close> slots are the
  occupied ones, and until the buffer is full the cursor is the counter.
\<close>

definition registry_inv :: "EnhancedInteractiveRipples \<Rightarrow> bool" where
  "registry_inv s =
     (length (uClickPos s) = MAX_CLICKS_E \<and> clickIndex s < MAX_CLICKS_E \<and>
      maxRipples s = int MAX_CLICKS_E \<and>
      0 \<le> activeRipples s \<and> activeRipples s \<le> int MAX_CLICKS_E \<and>
      (\<forall>i<MAX_CLICKS_E. (\<not> empty_slot (uClickPos s ! i)) = (int i < activeRipples s)) \<and>
      (activeRipples s < int MAX_CLICKS_E \<longrightarrow> int (clickIndex s) = activeRipples s))"

text \<open>An event that inserts a position which the shaders would skip.\<close>

fun inserts_empty :: "event \<Rightarrow> bool" where
  "inserts_empty (Click x y) = empty_slot (x, y)"
| "inserts_empty ClearAll = False"
| "inserts_empty (Frame t) = False"

section \<open>The ripple registry\<close>

subsection \<open>FIFO slot reuse\<close>

lemma inserts_snoc:
  "inserts (rs @ [r]) s = (case inserts rs s of Inl e \<Rightarrow> Inl e | Inr s' \<Rightarrow> inserts [r] s')"
  by (induction rs s rule: inserts.induct) (auto split: sum.splits)

lemma inserts_one:
  assumes "clickIndex s < length (uClickPos s)"
  shows "inserts [(x, y, t)] s =
    Inr (s\<lparr> uTime := t, uClickPos := (uClickPos s)[clickIndex s := (x, y)],
            uClickTimes := (uClickTimes s)[clickIndex s := t],
            clickIndex := (clickIndex s + 1) mod MAX_CLICKS \<rparr>)"
  using assms by (simp add: addRipple_def animate_def)

lemma inserts_upto:
  assumes "length rs \<le> MAX_CLICKS" "clickIndex s = 0"
    "length (uClickPos s) = MAX_CLICKS" "length (uClickTimes s) = MAX_CLICKS"
  shows "\<exists>s'. inserts rs s = Inr s' \<and> length (uClickPos s') = MAX_CLICKS \<and>
     length (uClickTimes s') = MAX_CLICKS \<and> clickIndex s' = length rs mod MAX_CLICKS \<and>
     (\<forall>i<length rs. slot s' i = rs ! i)"
  using assms
proof (induction rs rule: rev_induct)
  case Nil
  then show ?case by simp
next
  case (snoc r rs)
  then obtain s' where s': "inserts rs s = Inr s'" "length (uClickPos s') = MAX_CLICKS"
     "length (uClickTimes s') = MAX_CLICKS" "clickIndex s' = length rs mod MAX_CLICKS"
     "\<forall>i<length rs. slot s' i = rs ! i" by auto
  obtain x y t where r: "r = (x, y, t)" by (cases r)
  from snoc.prems have lt: "length rs < MAX_CLICKS" by simp
  then have ci: "clickIndex s' = length rs" using s' by simp
  have one: "inserts [r] s' = Inr (s'\<lparr> uTime := t, uClickPos := (uClickPos s')[length rs := (x, y)],
            uClickTimes := (uClickTimes s')[length rs := t],
            clickIndex := (length rs + 1) mod MAX_CLICKS \<rparr>)"
    unfolding r using inserts_one[of s' x y t] s' lt ci by simp
  have "inserts (rs @ [r]) s = Inr (s'\<lparr> uTime := t, uClickPos := (uClickPos s')[length rs := (x, y)],
            uClickTimes := (uClickTimes s')[length rs := t],
            clickIndex := (length rs + 1) mod MAX_CLICKS \<rparr>)"
    by (simp only: inserts_snoc s'(1) one sum.case)
  then show ?case using s' lt
    by (auto simp: r slot_def nth_append nth_list_update less_Suc_eq)
qed

lemma inserts_wrap:
  assumes len: "length rs = MAX_CLICKS + 1" and c0: "clickIndex s = 0"
    and lp: "length (uClickPos s) = MAX_CLICKS" and lt: "length (uClickTimes s) = MAX_CLICKS"
  shows "\<exists>s'. inserts rs s = Inr s' \<and> clickIndex s' = 1 \<and>
     slot s' 0 = rs ! MAX_CLICKS \<and> (\<forall>i. 0 < i \<and> i < MAX_CLICKS \<longrightarrow> slot s' i = rs ! i)"
proof -
  from len obtain qs r where rs: "rs = qs @ [r]" and lq: "length qs = MAX_CLICKS"
    by (cases rs rule: rev_cases) auto
  obtain x y t where r: "r = (x, y, t)" by (cases r)
  from inserts_upto[of qs s] lq c0 lp lt
  obtain s' where s': "inserts qs s = Inr s'" "length (uClickPos s') = MAX_CLICKS"
     "length (uClickTimes s') = MAX_CLICKS" "clickIndex s' = 0"
     "\<forall>i<MAX_CLICKS. slot s' i = qs ! i" by auto
  have pos: "0 < MAX_CLICKS" by (simp add: MAX_CLICKS_def)
  have one: "inserts [r] s' = Inr (s'\<lparr> uTime := t, uClickPos := (uClickPos s')[0 := (x, y)],
            uClickTimes := (uClickTimes s')[0 := t],
            clickIndex := 1 mod MAX_CLICKS \<rparr>)"
    unfolding r using inserts_one[of s' x y t] s' pos by simp
  have "inserts rs s = Inr (s'\<lparr> uTime := t, uClickPos := (uClickPos s')[0 := (x, y)],
            uClickTimes := (uClickTimes s')[0 := t],
            clickIndex := 1 mod MAX_CLICKS \<rparr>)"
    by (simp only: rs inserts_snoc s'(1) one sum.case)
  then show ?thesis using s' pos lq
    by (auto simp: rs r slot_def nth_append nth_list_update MAX_CLICKS_def)
qed

lemma inserts_E_snoc:
  "inserts_E (rs @ [r]) s = (case inserts_E rs s of Inl e \<Rightarrow> Inl e | Inr s' \<Rightarrow> inserts_E [r] s')"
  by (induction rs s rule: inserts_E.induct) (auto split: sum.splits)

lemma addRipple_E_eq:
  assumes "clickIndex s < length (uClickPos s)"
  shows "addRipple_E x y s =
    Inr (s\<lparr> uClickPos := (uClickPos s)[clickIndex s := (x, y)],
            uClickTimes := (uClickTimes s)[clickIndex s := uTime s],
            clickIndex := (clickIndex s + 1) mod MAX_CLICKS_E,
            activeRipples := (if activeRipples s \<ge> maxRipples s then activeRipples s else activeRipples s + 1) \<rparr>)"
  using assms by (simp add: addRipple_E_def Let_def)

lemma inserts_E_one:
  assumes "clickIndex s < length (uClickPos s)"
  shows "\<exists>a. inserts_E [(x, y, t)] s =
    Inr (s\<lparr> uTime := t, uClickPos := (uClickPos s)[clickIndex s := (x, y)],
            uClickTimes := (uClickTimes s)[clickIndex s := t],
            clickIndex := (clickIndex s + 1) mod MAX_CLICKS_E, activeRipples := a \<rparr>)"
proof -
  have "inserts_E [(x, y, t)] s =
    Inr (s\<lparr> uTime := t, uClickPos := (uClickPos s)[clickIndex s := (x, y)],
            uClickTimes := (uClickTimes s)[clickIndex s := t],
            clickIndex := (clickIndex s + 1) mod MAX_CLICKS_E,
            activeRipples := (if activeRipples s \<ge> maxRipples s then activeRipples s
                              else activeRipples s + 1) \<rparr>)"
    using assms by (simp add: addRipple_E_eq animate_def)
  then show ?thesis by blast
qed

lemma inserts_E_upto:
  assumes "length rs \<le> MAX_CLICKS_E" "clickIndex s = 0"
    "length (uClickPos s) = MAX_CLICKS_E" "length (uClickTimes s) = MAX_CLICKS_E"
  shows "\<exists>s'. inserts_E rs s = Inr s' \<and> length (uClickPos s') = MAX_CLICKS_E \<and>
     length (uClickTimes s') = MAX_CLICKS_E \<and> clickIndex s' = length rs mod MAX_CLICKS_E \<and>
     (\<forall>i<length rs. slot s' i = rs ! i)"
  using assms
proof (induction rs rule: rev_induct)
  case Nil
  then show ?case by simp
next
  case (snoc r rs)
  then obtain s' where s': "inserts_E rs s = Inr s'" "length (uClickPos s') = MAX_CLICKS_E"
     "length (uClickTimes s') = MAX_CLICKS_E" "clickIndex s' = length rs mod MAX_CLICKS_E"
     "\<forall>i<length rs. slot s' i = rs ! i" by auto
  obtain x y t where r: "r = (x, y, t)" by (cases r)
  from snoc.prems have lt: "length rs < MAX_CLICKS_E" by simp
  then have ci: "clickIndex s' = length rs" using s' by simp
  obtain a where one: "inserts_E [r] s' = Inr (s'\<lparr> uTime := t, uClickPos := (uClickPos s')[length rs := (x, y)],
            uClickTimes := (uClickTimes s')[length rs := t],
            clickIndex := (length rs + 1) mod MAX_CLICKS_E, activeRipples := a \<rparr>)"
    unfolding r using inserts_E_one[of s' x y t] s' lt ci by auto
  have "inserts_E (rs @ [r]) s = Inr (s'\<lparr> uTime := t, uClickPos := (uClickPos s')[length rs := (x, y)],
            uClickTimes := (uClickTimes s')[length rs := t],
            clickIndex := (length rs + 1) mod MAX_CLICKS_E, activeRipples := a \<rparr>)"
    by (simp only: inserts_E_snoc s'(1) one sum.case)
  then show ?case using s' lt
    by (auto simp: r slot_def nth_append nth_list_update less_Suc_eq)
qed

lemma inserts_E_wrap:
  assumes len: "length rs = MAX_CLICKS_E + 1" and c0: "clickIndex s = 0"
    and lp: "length (uClickPos s) = MAX_CLICKS_E" and lt: "length (uClickTimes s) = MAX_CLICKS_E"
  shows "\<exists>s'. inserts_E rs s = Inr s' \<and> clickIndex s' = 1 \<and>
     slot s' 0 = rs ! MAX_CLICKS_E \<and> (\<forall>i. 0 < i \<and> i < MAX_CLICKS_E \<longrightarrow> slot s' i = rs ! i)"
proof -
  from len obtain qs r where rs: "rs = qs @ [r]" and lq: "length qs = MAX_CLICKS_E"
    by (cases rs rule: rev_cases) auto
  obtain x y t where r: "r = (x, y, t)" by (cases r)
  from inserts_E_upto[of qs s] lq c0 lp lt
  obtain s' where s': "inserts_E qs s = Inr s'" "length (uClickPos s') = MAX_CLICKS_E"
     "length (uClickTimes s') = MAX_CLICKS_E" "clickIndex s' = 0"
     "\<forall>i<MAX_CLICKS_E. slot s' i = qs ! i" by auto
  have pos: "0 < MAX_CLICKS_E" by (simp add: MAX_CLICKS_E_def)
  obtain a where one: "inserts_E [r] s' = Inr (s'\<lparr> uTime := t, uClickPos := (uClickPos s')[0 := (x, y)],
            uClickTimes := (uClickTimes s')[0 := t],
            clickIndex := 1 mod MAX_CLICKS_E, activeRipples := a \<rparr>)"
    unfolding r using inserts_E_one[of s' x y t] s' pos by auto
  have "inserts_E rs s = Inr (s'\<lparr> uTime := t, uClickPos := (uClickPos s')[0 := (x, y)],
            uClickTimes := (uClickTimes s')[0 := t],
            clickIndex := 1 mod MAX_CLICKS_E, activeRipples := a \<rparr>)"
    by (simp only: rs inserts_E_snoc s'(1) one sum.case)
  then show ?thesis using s' pos lq
    by (auto simp: rs r slot_def nth_append nth_list_update MAX_CLICKS_E_def)
qed

lemma not_held:
  assumes "length rs = Suc n" "0 < n" "rs ! 0 \<notin> set (tl rs)" "i < n"
  shows "(if i = 0 then rs ! n else rs ! i) \<noteq> rs ! 0"
proof -
  have "(if i = 0 then rs ! n else rs ! i) \<in> set (tl rs)"
    using assms by (cases rs) (auto simp: nth_Cons' )
  with assms(3) show ?thesis by metis
qed

text \<open>
  Claim C1, as amended. Start from a registry whose cursor is 0 and whose arrays have the
  capacity \<open>N\<close> as their length, and perform the \<open>N + 1\<close> insertions \<open>rs\<close>. Then
  every insertion succeeds, the cursor is 1, slot 0 holds the record of insertion
  \<open>N + 1\<close>, slot 1 holds the record of insertion 2, every slot \<open>i\<close> with
  \<open>0 < i < N\<close> holds the record of insertion \<open>i + 1\<close>, and when the record of
  insertion 1 differs from all later ones no slot holds it. This holds in the basic
  variant (\<open>N = 10\<close>) and in the elaborated variant (\<open>N = 16\<close>, for every value of the
  counter and of \<open>maxRipples\<close>).
\<close>


theorem fifo_wrap:
  "(length rs = MAX_CLICKS + 1 \<and> clickIndex s = 0 \<and> length (uClickPos s) = MAX_CLICKS \<and>
    length (uClickTimes s) = MAX_CLICKS \<longrightarrow>
     (\<exists>s'. inserts rs s = Inr s' \<and> clickIndex s' = 1 \<and>
        slot s' 0 = rs ! MAX_CLICKS \<and> slot s' 1 = rs ! 1 \<and>
        (\<forall>i. 0 < i \<and> i < MAX_CLICKS \<longrightarrow> slot s' i = rs ! i) \<and>
        (rs ! 0 \<notin> set (tl rs) \<longrightarrow> (\<forall>i<MAX_CLICKS. slot s' i \<noteq> rs ! 0)))) \<and>
   (length qs = MAX_CLICKS_E + 1 \<and> clickIndex e = 0 \<and> length (uClickPos e) = MAX_CLICKS_E \<and>
    length (uClickTimes e) = MAX_CLICKS_E \<longrightarrow>
     (\<exists>e'. inserts_E qs e = Inr e' \<and> clickIndex e' = 1 \<and>
        slot e' 0 = qs ! MAX_CLICKS_E \<and> slot e' 1 = qs ! 1 \<and>
        (\<forall>i. 0 < i \<and> i < MAX_CLICKS_E \<longrightarrow> slot e' i = qs ! i) \<and>
        (qs ! 0 \<notin> set (tl qs) \<longrightarrow> (\<forall>i<MAX_CLICKS_E. slot e' i \<noteq> qs ! 0))))"
proof (intro conjI impI)
  assume h: "length rs = MAX_CLICKS + 1 \<and> clickIndex s = 0 \<and>
    length (uClickPos s) = MAX_CLICKS \<and> length (uClickTimes s) = MAX_CLICKS"
  then obtain s' where s': "inserts rs s = Inr s'" "clickIndex s' = 1"
     "slot s' 0 = rs ! MAX_CLICKS" "\<forall>i. 0 < i \<and> i < MAX_CLICKS \<longrightarrow> slot s' i = rs ! i"
    using inserts_wrap[of rs s] by auto
  have all: "\<And>i. i < MAX_CLICKS \<Longrightarrow> slot s' i = (if i = 0 then rs ! MAX_CLICKS else rs ! i)"
    using s' by auto
  have "rs ! 0 \<notin> set (tl rs) \<longrightarrow> (\<forall>i<MAX_CLICKS. slot s' i \<noteq> rs ! 0)"
    using not_held[of rs MAX_CLICKS] h all by (simp add: MAX_CLICKS_def)
  moreover have "slot s' 1 = rs ! 1" using s'(4) by (simp add: MAX_CLICKS_def)
  ultimately show "\<exists>s'. inserts rs s = Inr s' \<and> clickIndex s' = 1 \<and>
        slot s' 0 = rs ! MAX_CLICKS \<and> slot s' 1 = rs ! 1 \<and>
        (\<forall>i. 0 < i \<and> i < MAX_CLICKS \<longrightarrow> slot s' i = rs ! i) \<and>
        (rs ! 0 \<notin> set (tl rs) \<longrightarrow> (\<forall>i<MAX_CLICKS. slot s' i \<noteq> rs ! 0))"
    using s' by blast
next
  assume h: "length qs = MAX_CLICKS_E + 1 \<and> clickIndex e = 0 \<and>
    length (uClickPos e) = MAX_CLICKS_E \<and> length (uClickTimes e) = MAX_CLICKS_E"
  then obtain s' where s': "inserts_E qs e = Inr s'" "clickIndex s' = 1"
     "slot s' 0 = qs ! MAX_CLICKS_E" "\<forall>i. 0 < i \<and> i < MAX_CLICKS_E \<longrightarrow> slot s' i = qs ! i"
    using inserts_E_wrap[of qs e] by auto
  have all: "\<And>i. i < MAX_CLICKS_E \<Longrightarrow> slot s' i = (if i = 0 then qs ! MAX_CLICKS_E else qs ! i)"
    using s' by auto
  have "qs ! 0 \<notin> set (tl qs) \<longrightarrow> (\<forall>i<MAX_CLICKS_E. slot s' i \<noteq> qs ! 0)"
    using not_held[of qs MAX_CLICKS_E] h all by (simp add: MAX_CLICKS_E_def)
  moreover have "slot s' 1 = qs ! 1" using s'(4) by (simp add: MAX_CLICKS_E_def)
  ultimately show "\<exists>e'. inserts_E qs e = Inr e' \<and> clickIndex e' = 1 \<and>
        slot e' 0 = qs ! MAX_CLICKS_E \<and> slot e' 1 = qs ! 1 \<and>
        (\<forall>i. 0 < i \<and> i < MAX_CLICKS_E \<longrightarrow> slot e' i = qs ! i) \<and>
        (qs ! 0 \<notin> set (tl qs) \<longrightarrow> (\<forall>i<MAX_CLICKS_E. slot e' i \<noteq> qs ! 0))"
    using s' by blast
qed

theorem fifo_wrap_witness:
  "(\<exists>s'. inserts [(1,1,1),(2,2,2),(3,3,3),(4,4,4),(5,5,5),(6,6,6),(7,7,7),(8,8,8),(9,9,9),
                   (10,10,10),(11,11,11)] init = Inr s' \<and>
      slot s' 0 = (11, 11, 11) \<and> slot s' 1 = (2, 2, 2) \<and> (\<forall>i<10. slot s' i \<noteq> (1, 1, 1))) \<and>
   (\<exists>e'. inserts_E [(1,1,1),(2,2,2),(3,3,3),(4,4,4),(5,5,5),(6,6,6),(7,7,7),(8,8,8),(9,9,9),
                     (10,10,10),(11,11,11),(12,12,12),(13,13,13),(14,14,14),(15,15,15),
                     (16,16,16),(17,17,17)] init_E = Inr e' \<and>
      slot e' 0 = (17, 17, 17) \<and> slot e' 1 = (2, 2, 2) \<and> (\<forall>i<16. slot e' i \<noteq> (1, 1, 1)))"
proof -
  let ?rs = "[(1,1,1),(2,2,2),(3,3,3),(4,4,4),(5,5,5),(6,6,6),(7,7,7),(8,8,8),(9,9,9),(10,10,10),(11,11,11)] :: ripple list"
  let ?qs = "[(1,1,1),(2,2,2),(3,3,3),(4,4,4),(5,5,5),(6,6,6),(7,7,7),(8,8,8),(9,9,9),(10,10,10),(11,11,11),(12,12,12),(13,13,13),(14,14,14),(15,15,15),(16,16,16),(17,17,17)] :: ripple list"
  have a: "length ?rs = MAX_CLICKS + 1 \<and> clickIndex init = 0 \<and> length (uClickPos init) = MAX_CLICKS \<and>
    length (uClickTimes init) = MAX_CLICKS" by (simp add: init_def MAX_CLICKS_def)
  have b: "length ?qs = MAX_CLICKS_E + 1 \<and> clickIndex init_E = 0 \<and> length (uClickPos init_E) = MAX_CLICKS_E \<and>
    length (uClickTimes init_E) = MAX_CLICKS_E" by (simp add: init_E_def MAX_CLICKS_E_def)
  have c: "?rs ! 0 \<notin> set (tl ?rs)" "?rs ! MAX_CLICKS = (11, 11, 11)" "?rs ! 1 = (2,2,2)" "?rs ! 0 = (1,1,1)"
    by (simp_all add: MAX_CLICKS_def)
  have d: "?qs ! 0 \<notin> set (tl ?qs)" "?qs ! MAX_CLICKS_E = (17, 17, 17)" "?qs ! 1 = (2,2,2)" "?qs ! 0 = (1,1,1)"
    by (simp_all add: MAX_CLICKS_E_def)
  have m: "MAX_CLICKS = 10" "MAX_CLICKS_E = 16" by (simp_all add: MAX_CLICKS_def MAX_CLICKS_E_def)
  note w = fifo_wrap[of ?rs init ?qs init_E]
  from mp[OF conjunct1[OF w] a] obtain s' where s': "inserts ?rs init = Inr s'"
     "slot s' 0 = ?rs ! MAX_CLICKS" "slot s' 1 = ?rs ! 1"
     "?rs ! 0 \<notin> set (tl ?rs) \<longrightarrow> (\<forall>i<MAX_CLICKS. slot s' i \<noteq> ?rs ! 0)"
    by (elim exE conjE)
  from mp[OF conjunct2[OF w] b] obtain e' where e': "inserts_E ?qs init_E = Inr e'"
     "slot e' 0 = ?qs ! MAX_CLICKS_E" "slot e' 1 = ?qs ! 1"
     "?qs ! 0 \<notin> set (tl ?qs) \<longrightarrow> (\<forall>i<MAX_CLICKS_E. slot e' i \<noteq> ?qs ! 0)"
    by (elim exE conjE)
  have A: "inserts ?rs init = Inr s' \<and>
    slot s' 0 = (11, 11, 11) \<and> slot s' 1 = (2, 2, 2) \<and> (\<forall>i<10. slot s' i \<noteq> (1, 1, 1))"
    using s'(1) s'(2)[unfolded c(2)] s'(3)[unfolded c(3)] mp[OF s'(4) c(1), unfolded c(4) m]
    by (intro conjI)
  have B: "inserts_E ?qs init_E = Inr e' \<and>
    slot e' 0 = (17, 17, 17) \<and> slot e' 1 = (2, 2, 2) \<and> (\<forall>i<16. slot e' i \<noteq> (1, 1, 1))"
    using e'(1) e'(2)[unfolded d(2)] e'(3)[unfolded d(3)] mp[OF e'(4) d(1), unfolded d(4) m]
    by (intro conjI)
  show ?thesis
    by (rule conjI, rule exI[of _ s'], rule A, rule exI[of _ e'], rule B)
qed

text \<open>
  Claim C1 as stated fails: after 11 insertions into the initial basic registry, slot 0
  holds the record of insertion 11, not that of insertion 2, which is in slot 1.
\<close>

theorem fifo_slot0_counterexample:
  "(case inserts [(1,1,1),(2,2,2),(3,3,3),(4,4,4),(5,5,5),(6,6,6),(7,7,7),(8,8,8),(9,9,9),
                  (10,10,10),(11,11,11)] init of
     Inl err \<Rightarrow> False
   | Inr s' \<Rightarrow> slot s' 0 = (11, 11, 11) \<and> slot s' 0 \<noteq> (2, 2, 2) \<and> slot s' 1 = (2, 2, 2))"
  by code_simp

subsection \<open>Clearing\<close>

text \<open>
  Claim C3, as amended. In both variants the clear operation sets every slot's position
  to the sentinel \<open>(-1, -1)\<close>, which the shaders skip, and every spawn time to 0. It
  is a total function: nothing in it can throw. The elaborated \<open>clearAllRipples\<close> also
  resets the cursor and the counter to 0; the basic \<open>clearRipples\<close> leaves the cursor
  (and the resolution and the time) as they are.
\<close>

theorem clear_resets:
  "uClickPos (clearRipples s) = replicate (length (uClickPos s)) sentinel \<and>
   uClickTimes (clearRipples s) = replicate (length (uClickTimes s)) 0 \<and>
   clickIndex (clearRipples s) = clickIndex s \<and>
   uResolution (clearRipples s) = uResolution s \<and> uTime (clearRipples s) = uTime s \<and>
   uClickPos (clearAllRipples e) = replicate (length (uClickPos e)) sentinel \<and>
   uClickTimes (clearAllRipples e) = replicate (length (uClickTimes e)) 0 \<and>
   clickIndex (clearAllRipples e) = 0 \<and> activeRipples (clearAllRipples e) = 0 \<and>
   empty_slot sentinel"
  by (simp add: clearRipples_def clearAllRipples_def map_replicate_const sentinel_def empty_slot_def)

theorem clear_resets_witness:
  "uClickPos (clearRipples (init\<lparr>uClickPos := (uClickPos init)[0 := (5, 7)], clickIndex := 1\<rparr>)) = replicate 10 sentinel \<and>
   clickIndex (clearRipples (init\<lparr>uClickPos := (uClickPos init)[0 := (5, 7)], clickIndex := 1\<rparr>)) = 1 \<and>
   clickIndex (clearAllRipples (init_E\<lparr>clickIndex := 1, activeRipples := 1\<rparr>)) = 0"
  using clear_resets[of "init\<lparr>uClickPos := (uClickPos init)[0 := (5, 7)], clickIndex := 1\<rparr>" "init_E\<lparr>clickIndex := 1, activeRipples := 1\<rparr>"]
  by (simp add: init_def MAX_CLICKS_def)

text \<open>
  Claim C3 as stated fails in the basic variant: after one insertion the cursor is 1,
  and \<open>clearRipples\<close> leaves it at 1.
\<close>

theorem clear_cursor_counterexample:
  "(case addRipple 5 7 init of
      Inl err \<Rightarrow> False
    | Inr s \<Rightarrow> clickIndex s = 1 \<and> clickIndex (clearRipples s) = 1 \<and> clickIndex (clearRipples s) \<noteq> 0)"
  by (simp add: addRipple_def init_def clearRipples_def MAX_CLICKS_def)

subsection \<open>What an insertion changes\<close>

text \<open>
  Claim C10. An insertion into a registry whose cursor is within the array succeeds, and
  the new state is the old one with the position and the spawn time of the slot at the
  cursor replaced, the cursor advanced and, in the elaborated variant, the counter
  updated. So the record of every other slot is unchanged, and so are the resolution,
  the time and all style parameters.
\<close>

theorem addRipple_frame:
  "(clickIndex s < length (uClickPos s) \<longrightarrow>
     (\<exists>s'. addRipple x y s = Inr s' \<and>
        s' = s\<lparr> uClickPos := (uClickPos s)[clickIndex s := (x, y)],
                uClickTimes := (uClickTimes s)[clickIndex s := uTime s],
                clickIndex := (clickIndex s + 1) mod MAX_CLICKS \<rparr> \<and>
        (\<forall>i. i \<noteq> clickIndex s \<longrightarrow> slot s' i = slot s i))) \<and>
   (clickIndex e < length (uClickPos e) \<longrightarrow>
     (\<exists>e'. addRipple_E x y e = Inr e' \<and>
        e' = e\<lparr> uClickPos := (uClickPos e)[clickIndex e := (x, y)],
                uClickTimes := (uClickTimes e)[clickIndex e := uTime e],
                clickIndex := (clickIndex e + 1) mod MAX_CLICKS_E,
                activeRipples := (if activeRipples e \<ge> maxRipples e then activeRipples e
                                  else activeRipples e + 1) \<rparr> \<and>
        (\<forall>i. i \<noteq> clickIndex e \<longrightarrow> slot e' i = slot e i)))"
  by (simp add: addRipple_def addRipple_E_eq slot_def)

theorem addRipple_frame_witness:
  "(\<exists>s'. addRipple 5 7 (animate 3 init) = Inr s' \<and> slot s' 0 = (5, 7, 3) \<and> slot s' 1 = (-1, -1, 0) \<and>
      clickIndex s' = 1 \<and> uTime s' = 3 \<and> uResolution s' = (0, 0)) \<and>
   (\<exists>e'. addRipple_E 5 7 (animate 3 init_E) = Inr e' \<and> slot e' 0 = (5, 7, 3) \<and> slot e' 1 = (-1, -1, 0) \<and>
      clickIndex e' = 1 \<and> activeRipples e' = 1 \<and> uPixelSize e' = 4 \<and> uWaveSpeed e' = 35 / 100)"
  using addRipple_frame[of "animate 3 init" 5 7 "animate 3 init_E"]
  by (simp add: animate_def init_def init_E_def MAX_CLICKS_def MAX_CLICKS_E_def slot_def sentinel_def)

subsection \<open>The active-ripple counter\<close>

lemma count_prefix:
  assumes "\<forall>i<length xs. P (xs ! i) = (i < a)" "a \<le> length xs"
  shows "length (filter P xs) = a"
proof -
  have "{i. i < length xs \<and> P (xs ! i)} = {i. i < a}" using assms by auto
  then show ?thesis by (simp add: length_filter_conv_card)
qed

lemma inv_count:
  assumes "registry_inv s"
  shows "activeRipples s = int (active_count s)"
proof -
  from assms obtain a where a: "activeRipples s = int a" "a \<le> MAX_CLICKS_E"
    unfolding registry_inv_def by (metis nat_le_iff nonneg_int_cases of_nat_le_iff)
  have "length (filter (\<lambda>pos. \<not> empty_slot pos) (uClickPos s)) = a"
    using assms a unfolding registry_inv_def by (intro count_prefix) auto
  then show ?thesis using a by (simp add: active_count_def)
qed

lemma inv_init: "registry_inv init_E"
  by (simp add: registry_inv_def init_E_def MAX_CLICKS_E_def sentinel_def empty_slot_def)

lemma inv_clear: "length (uClickPos s) = MAX_CLICKS_E \<Longrightarrow> maxRipples s = int MAX_CLICKS_E \<Longrightarrow> registry_inv (clearAllRipples s)"
  by (simp add: registry_inv_def clearAllRipples_def MAX_CLICKS_E_def sentinel_def empty_slot_def)

lemma inv_animate: "registry_inv s \<Longrightarrow> registry_inv (animate t s)"
  by (simp add: registry_inv_def animate_def)

lemma inv_add:
  assumes inv: "registry_inv s" and ne: "\<not> empty_slot (x, y)"
  shows "\<exists>s'. addRipple_E x y s = Inr s' \<and> registry_inv s'"
proof -
  from inv have lt: "clickIndex s < length (uClickPos s)" by (simp add: registry_inv_def)
  let ?s' = "s\<lparr> uClickPos := (uClickPos s)[clickIndex s := (x, y)],
            uClickTimes := (uClickTimes s)[clickIndex s := uTime s],
            clickIndex := (clickIndex s + 1) mod MAX_CLICKS_E,
            activeRipples := (if activeRipples s \<ge> maxRipples s then activeRipples s else activeRipples s + 1) \<rparr>"
  have eq: "addRipple_E x y s = Inr ?s'" using lt by (rule addRipple_E_eq)
  have "registry_inv ?s'"
  proof (cases "activeRipples s \<ge> maxRipples s")
    case True
    then show ?thesis using inv ne
      by (auto simp: registry_inv_def nth_list_update)
  next
    case False
    then show ?thesis using inv ne
      by (auto simp: registry_inv_def nth_list_update MAX_CLICKS_E_def mod_Suc)
  qed
  with eq show ?thesis by blast
qed

lemma inv_run:
  assumes "registry_inv s" "\<forall>ev\<in>set evs. \<not> inserts_empty ev"
  shows "\<exists>s'. run_E evs s = Inr s' \<and> registry_inv s'"
  using assms
proof (induction evs arbitrary: s)
  case Nil
  then show ?case by simp
next
  case (Cons ev evs)
  have "\<exists>s1. handle_E ev s = Inr s1 \<and> registry_inv s1"
  proof (cases ev)
    case (Click x y)
    then show ?thesis using Cons.prems inv_add[of s x y] by simp
  next
    case ClearAll
    then show ?thesis using Cons.prems inv_clear[of s] by (simp add: registry_inv_def)
  next
    case (Frame t)
    then show ?thesis using Cons.prems inv_animate[of s t] by simp
  qed
  then obtain s1 where s1: "handle_E ev s = Inr s1" "registry_inv s1" by blast
  from Cons.IH[OF s1(2)] Cons.prems(2) show ?case by (simp add: s1(1))
qed

text \<open>
  Claim C4. In the elaborated variant \<open>maxRipples\<close> is initialised to the capacity 16
  and no operation assigns it, so it is at most the capacity throughout. After every
  sequence of insertions, clears and frames from the initial state, in which no
  inserted position is the empty sentinel (both coordinates negative, the insert
  contract), every operation has succeeded, \<open>maxRipples\<close> is still 16,
  \<open>activeRipples\<close> is the number of slots whose position is not the empty sentinel,
  and it lies between 0 and 16.
\<close>

theorem active_count_invariant:
  "(\<forall>ev\<in>set evs. \<not> inserts_empty ev) \<Longrightarrow>
   \<exists>s'. run_E evs init_E = Inr s' \<and> maxRipples s' = int MAX_CLICKS_E \<and>
        activeRipples s' = int (active_count s') \<and>
        0 \<le> activeRipples s' \<and> activeRipples s' \<le> int MAX_CLICKS_E"
proof -
  assume "\<forall>ev\<in>set evs. \<not> inserts_empty ev"
  with inv_run[OF inv_init] obtain s' where s': "run_E evs init_E = Inr s'" "registry_inv s'"
    by blast
  from s'(2) have "maxRipples s' = int MAX_CLICKS_E \<and> 0 \<le> activeRipples s' \<and> activeRipples s' \<le> int MAX_CLICKS_E"
    by (simp add: registry_inv_def)
  with s'(1) inv_count[OF s'(2)] show ?thesis by blast
qed

theorem active_count_invariant_witness:
  "\<exists>s'. run_E [Click 1 1, Frame 2, Click 3 (-4), ClearAll, Click (-5) 5, Click 800 600] init_E = Inr s' \<and>
        activeRipples s' = int (active_count s') \<and> activeRipples s' \<le> 16"
proof -
  let ?evs = "[Click 1 1, Frame 2, Click 3 (-4), ClearAll, Click (-5) 5, Click 800 600]"
  have h: "\<forall>ev\<in>set ?evs. \<not> inserts_empty ev"
    by (simp add: empty_slot_def)
  from active_count_invariant[OF h] obtain s' where s': "run_E ?evs init_E = Inr s'"
    "activeRipples s' = int (active_count s')" "activeRipples s' \<le> int MAX_CLICKS_E"
    by blast
  from s'(3) have "activeRipples s' \<le> 16" by (simp add: MAX_CLICKS_E_def)
  with s'(1,2) show ?thesis by blast
qed

section \<open>The fragment shaders\<close>

subsection \<open>The loop over the slots\<close>

lemma fold_max_eq:
  "fold (\<lambda>i f. if P i then f else max f (c i)) xs (a::real) =
     Max (insert a (c ` {i \<in> set xs. \<not> P i}))"
proof (induction xs arbitrary: a)
  case Nil
  then show ?case by simp
next
  case (Cons x xs)
  show ?case
  proof (cases "P x")
    case True
    then have "{i \<in> set (x # xs). \<not> P i} = {i \<in> set xs. \<not> P i}" by auto
    then show ?thesis using True Cons.IH[of a] by simp
  next
    case False
    then have eq: "{i \<in> set (x # xs). \<not> P i} = insert x {i \<in> set xs. \<not> P i}" by auto
    define S where "S = c ` {i \<in> set xs. \<not> P i}"
    have fin: "finite S" by (simp add: S_def)
    have m: "Max (insert (max a (c x)) S) = Max (insert a (insert (c x) S))"
    proof (cases "S = {}")
      case True
      then show ?thesis by simp
    next
      case False
      with fin show ?thesis by (simp add: max.assoc)
    qed
    have "fold (\<lambda>i f. if P i then f else max f (c i)) (x # xs) a =
          fold (\<lambda>i f. if P i then f else max f (c i)) xs (max a (c x))"
      using False by simp
    also have "\<dots> = Max (insert (max a (c x)) S)"
      unfolding S_def by (rule Cons.IH)
    also have "\<dots> = Max (insert a (insert (c x) S))" by (rule m)
    also have "insert (c x) S = c ` {i \<in> set (x # xs). \<not> P i}"
      unfolding eq S_def by simp
    finally show ?thesis .
  qed
qed

lemma feed_eq_Max:
  "feed u uv = Max (insert 0 (contribution u uv ` {i. i < MAX_CLICKS \<and> \<not> empty_slot (uClickPos u ! i)}))"
  unfolding feed_def fold_max_eq by simp

lemma fold_pair:
  "fold (\<lambda>i (tw, mi). if P i then (tw, mi) else (max tw (c i), max mi (c i))) xs (a, a) =
   (fold (\<lambda>i f. if P i then f else max f (c i)) xs (a::real),
    fold (\<lambda>i f. if P i then f else max f (c i)) xs a)"
  by (induction xs arbitrary: a) auto

lemma totalWave_eq_Max:
  "totalWave u uv = Max (insert 0 (finalWave u uv ` {i. i < MAX_CLICKS_E \<and> \<not> empty_slot (uClickPos u ! i)}))"
  unfolding totalWave_def ripples_E_def fold_pair fold_max_eq by simp

lemma maxIntensity_eq_totalWave: "maxIntensity u uv = totalWave u uv"
  unfolding totalWave_def maxIntensity_def ripples_E_def fold_pair by simp

lemma contribution_nonneg: "0 \<le> contribution u uv i"
  by (simp add: contribution_def ring_def atten_def Let_def)

lemma calculateWave_nonneg: "0 \<le> calculateWave p c t sp th"
proof -
  have a: "0 \<le> 1 + 0.3 * sin x" for x :: real
    using sin_ge_minus_one[of x] by linarith
  show ?thesis unfolding calculateWave_def Let_def
    by (intro mult_nonneg_nonneg a) simp_all
qed

lemma finalWave_nonneg: "0 \<le> finalWave u uv i"
  unfolding finalWave_def Let_def timeAttenuation_def distanceAttenuation_def
  by (intro mult_nonneg_nonneg calculateWave_nonneg) simp_all

lemma feed_ge:
  assumes "i < MAX_CLICKS" "\<not> empty_slot (uClickPos u ! i)"
  shows "contribution u uv i \<le> feed u uv"
  unfolding feed_eq_Max using assms by (intro Max_ge) auto

lemma totalWave_ge:
  assumes "i < MAX_CLICKS_E" "\<not> empty_slot (uClickPos u ! i)"
  shows "finalWave u uv i \<le> totalWave u uv"
  unfolding totalWave_eq_Max using assms by (intro Max_ge) auto

subsection \<open>Insertions and the empty-slot test\<close>



subsection \<open>Bayer thresholds\<close>

lemma fract_range: "0 \<le> fract x \<and> fract x < 1"
  unfolding fract_def by linarith

lemma fract_quarters: "fract (of_int k / 4) \<le> 3 / 4"
proof -
  have k: "k = 4 * (k div 4) + k mod 4" by simp
  have "(of_int k :: real) = 4 * of_int (k div 4) + of_int (k mod 4)"
    by (metis k of_int_add of_int_mult of_int_numeral)
  then have e: "(of_int k :: real) / 4 = of_int (k div 4) + of_int (k mod 4) / 4" by simp
  have "0 \<le> k mod 4" "k mod 4 \<le> 3" by simp_all
  then have b: "0 \<le> (of_int (k mod 4) :: real) / 4" "(of_int (k mod 4) :: real) / 4 \<le> 3 / 4"
    by simp_all
  have fl: "\<lfloor>(of_int k :: real) / 4\<rfloor> = k div 4"
    by (rule floor_unique) (use b e in linarith)+
  have "fract (of_int k / 4) = of_int (k mod 4) / 4"
    unfolding fract_def fl using e by linarith
  with b show ?thesis by simp
qed

lemma Bayer2_range: "0 \<le> Bayer2 a \<and> Bayer2 a \<le> 3 / 4"
proof -
  define m n where "m = \<lfloor>fst a\<rfloor>" and "n = \<lfloor>snd a\<rfloor>"
  have e: "of_int m / 2 + of_int n * of_int n * 0.75 = (of_int (2 * m + 3 * n * n) :: real) / 4"
    by simp
  have "Bayer2 a = fract (of_int m / 2 + of_int n * of_int n * 0.75)"
    by (simp add: Bayer2_def floor2_def Let_def m_def n_def)
  then have "Bayer2 a = fract (of_int (2 * m + 3 * n * n) / 4)"
    by (simp only: e)
  then show ?thesis using fract_quarters[of "2 * m + 3 * n * n"] fract_range by simp
qed

lemma Bayer4_range: "0 \<le> Bayer4 a \<and> Bayer4 a \<le> 15 / 16"
  using Bayer2_range[of a] Bayer2_range[of "vscale 0.5 a"] by (simp add: Bayer4_def)

lemma Bayer8_range: "0 \<le> Bayer8 a \<and> Bayer8 a \<le> 63 / 64"
  using Bayer2_range[of a] Bayer4_range[of "vscale 0.5 a"] by (simp add: Bayer8_def)

lemma Bayer16_range: "0 \<le> Bayer16 a \<and> Bayer16 a \<le> 255 / 256"
  using Bayer2_range[of a] Bayer8_range[of "vscale 0.5 a"] by (simp add: Bayer16_def)

lemma blueNoise_range: "0 \<le> blueNoise c \<and> blueNoise c < 1"
  by (simp add: blueNoise_def Let_def fract_range)

text \<open>
  Claim C7. For every coordinate the thresholds \<open>Bayer2\<close>, \<open>Bayer4\<close>, \<open>Bayer8\<close> and
  \<open>Bayer16\<close> lie in \<open>[0, 1)\<close>, so the recentred dither value of the basic shader
  (\<open>Bayer8 - 0.5\<close>) and that of the elaborated shader (whichever pattern the intensity
  \<open>w\<close> selects, the blue noise included) lie in \<open>[-0.5, 0.5)\<close>.
\<close>

theorem bayer_threshold_range:
  "0 \<le> Bayer2 a \<and> Bayer2 a < 1 \<and> 0 \<le> Bayer4 a \<and> Bayer4 a < 1 \<and>
   0 \<le> Bayer8 a \<and> Bayer8 a < 1 \<and> 0 \<le> Bayer16 a \<and> Bayer16 a < 1 \<and>
   - 0.5 \<le> Bayer8 a - 0.5 \<and> Bayer8 a - 0.5 < 0.5 \<and>
   - 0.5 \<le> ditherValue w a \<and> ditherValue w a < 0.5"
  using Bayer2_range[of a] Bayer4_range[of a] Bayer8_range[of a] Bayer16_range[of a]
    blueNoise_range[of a]
  by (simp add: ditherValue_def)

text \<open>The bounds of the lemmas above are attained.\<close>

lemma Bayer_values: "Bayer2 (0, 1) = 3/4" "Bayer4 (0, 3) = 15/16" "Bayer8 (0, 7) = 63/64"
  by (simp_all add: Bayer2_def Bayer4_def Bayer8_def floor2_def fract_def vscale_def Let_def)

subsection \<open>Combination by maximum\<close>

lemma Max_dominant:
  assumes "finite S" "c \<in> S" "\<forall>x\<in>S. x \<le> c" "(0::real) \<le> c"
  shows "Max (insert 0 S) = c"
  using assms by (intro Max_eqI) auto

lemma feed_dominant:
  assumes "i < MAX_CLICKS" "\<not> empty_slot (uClickPos u ! i)"
    "\<forall>j<MAX_CLICKS. \<not> empty_slot (uClickPos u ! j) \<longrightarrow> contribution u uv j \<le> contribution u uv i"
  shows "feed u uv = contribution u uv i"
  unfolding feed_eq_Max
  using assms contribution_nonneg[of u uv i] by (intro Max_dominant) auto

lemma totalWave_dominant:
  assumes "k < MAX_CLICKS_E" "\<not> empty_slot (uClickPos e ! k)"
    "\<forall>j<MAX_CLICKS_E. \<not> empty_slot (uClickPos e ! j) \<longrightarrow> finalWave e uv j \<le> finalWave e uv k"
  shows "totalWave e uv = finalWave e uv k"
  unfolding totalWave_eq_Max
  using assms finalWave_nonneg[of e uv k] by (intro Max_dominant) auto

text \<open>
  Claim C5. In both shaders, for a resolution without a zero component (and a
  thickness other than 0 in the elaborated shader), the aggregate intensity is the
  maximum of 0 (the initial value) and the contributions of the slots that are not
  skipped; contributions are not negative, so with at least one such slot it is the
  largest single contribution, never a sum. In particular, when one slot's
  contribution is at least that of every other slot, the aggregate equals it: two
  ripples contributing 0.4 each give 0.4.
\<close>

theorem aggregate_is_max:
  "(nonzero (uResolution u) \<longrightarrow>
      feed u uv =
        Max (insert 0 (contribution u uv ` {i. i < MAX_CLICKS \<and> \<not> empty_slot (uClickPos u ! i)})) \<and>
      (i < MAX_CLICKS \<and> \<not> empty_slot (uClickPos u ! i) \<and>
       (\<forall>j<MAX_CLICKS. \<not> empty_slot (uClickPos u ! j) \<longrightarrow>
           contribution u uv j \<le> contribution u uv i)
         \<longrightarrow> feed u uv = contribution u uv i)) \<and>
   (nonzero (uResolution e) \<and> uWaveThickness e \<noteq> 0 \<longrightarrow>
      totalWave e uv =
        Max (insert 0 (finalWave e uv ` {i. i < MAX_CLICKS_E \<and> \<not> empty_slot (uClickPos e ! i)})) \<and>
      maxIntensity e uv = totalWave e uv \<and>
      (k < MAX_CLICKS_E \<and> \<not> empty_slot (uClickPos e ! k) \<and>
       (\<forall>j<MAX_CLICKS_E. \<not> empty_slot (uClickPos e ! j) \<longrightarrow>
           finalWave e uv j \<le> finalWave e uv k)
         \<longrightarrow> totalWave e uv = finalWave e uv k))"
proof (intro conjI impI)
  show "feed u uv =
      Max (insert 0 (contribution u uv ` {i. i < MAX_CLICKS \<and> \<not> empty_slot (uClickPos u ! i)}))"
    by (rule feed_eq_Max)
  show "totalWave e uv =
      Max (insert 0 (finalWave e uv ` {i. i < MAX_CLICKS_E \<and> \<not> empty_slot (uClickPos e ! i)}))"
    by (rule totalWave_eq_Max)
  show "maxIntensity e uv = totalWave e uv" by (rule maxIntensity_eq_totalWave)
next
  assume h: "i < MAX_CLICKS \<and> \<not> empty_slot (uClickPos u ! i) \<and>
    (\<forall>j<MAX_CLICKS. \<not> empty_slot (uClickPos u ! j) \<longrightarrow> contribution u uv j \<le> contribution u uv i)"
  show "feed u uv = contribution u uv i"
    using h by (intro feed_dominant) simp_all
next
  assume h: "k < MAX_CLICKS_E \<and> \<not> empty_slot (uClickPos e ! k) \<and>
    (\<forall>j<MAX_CLICKS_E. \<not> empty_slot (uClickPos e ! j) \<longrightarrow> finalWave e uv j \<le> finalWave e uv k)"
  show "totalWave e uv = finalWave e uv k"
    using h by (intro totalWave_dominant) simp_all
qed

subsection \<open>A ripple at its spawn instant and centre\<close>

lemma distance_self: "distance p p = 0"
  by (simp add: distance_def)

lemma distance_nonneg: "0 \<le> distance p q"
  by (simp add: distance_def)

lemma ring_le_1: "ring t r \<le> 1"
  by (simp add: ring_def Let_def)

lemma contribution_le_1: "contribution u uv i \<le> 1"
proof -
  define t where "t = max (uTime u - uClickTimes u ! i) 0"
  define r where "r = distance uv (cuv_of (uResolution u) (8 * PIXEL_SIZE) (uClickPos u ! i))"
  have c: "contribution u uv i = ring t r * atten t r"
    by (simp add: contribution_def Let_def t_def r_def)
  have "0 \<le> t" "0 \<le> r" by (simp_all add: t_def r_def distance_nonneg)
  then have "exp (- t) \<le> 1" "exp (- r) \<le> 1" by simp_all
  then have "exp (- t) * exp (- r) \<le> 1 * 1"
    by (intro mult_mono) simp_all
  then have a: "atten t r \<le> 1" by (simp add: atten_def dampT_def dampR_def)
  have "0 \<le> ring t r" "0 \<le> atten t r" by (simp_all add: ring_def atten_def Let_def)
  with ring_le_1[of t r] a have "ring t r * atten t r \<le> 1 * 1"
    by (intro mult_mono) simp_all
  with c show ?thesis by simp
qed

text \<open>
  Claim C6, as amended. For a slot evaluated with elapsed time 0 at its own centre
  (radial distance 0), with a resolution without a zero component: in the basic shader the ring term and the attenuation are 1, the
  contribution is 1, and the intensity at that point is 1 when the slot is not skipped;
  in the elaborated shader (with a thickness other than 0) both attenuation factors are
  1, but \<open>calculateWave\<close> multiplies the Gaussian by \<open>(1 + 0.3 * sin 0) * 0.7\<close>, so the
  contribution is 0.7 and the intensity at that point is at least 0.7.
\<close>

theorem spawn_centre_intensity:
  "(nonzero (uResolution u) \<and> max (uTime u - uClickTimes u ! i) 0 = 0 \<and>
    distance uv (cuv_of (uResolution u) (8 * PIXEL_SIZE) (uClickPos u ! i)) = 0 \<longrightarrow>
      ring 0 0 = 1 \<and> atten 0 0 = 1 \<and> contribution u uv i = 1 \<and>
      (i < MAX_CLICKS \<and> \<not> empty_slot (uClickPos u ! i) \<longrightarrow> feed u uv = 1)) \<and>
   (nonzero (uResolution e) \<and> max (uTime e - uClickTimes e ! k) 0 = 0 \<and>
    distance uv' (cuv_of (uResolution e) (CELL_PIXEL_SIZE * uPixelSize e) (uClickPos e ! k)) = 0 \<and>
    uWaveThickness e \<noteq> 0 \<longrightarrow>
      timeAttenuation e 0 = 1 \<and> distanceAttenuation e 0 = 1 \<and>
      calculateWave uv' (cuv_of (uResolution e) (CELL_PIXEL_SIZE * uPixelSize e) (uClickPos e ! k))
        0 (uWaveSpeed e) (uWaveThickness e) = 0.7 \<and>
      finalWave e uv' k = 0.7 \<and>
      (k < MAX_CLICKS_E \<and> \<not> empty_slot (uClickPos e ! k) \<longrightarrow> 0.7 \<le> totalWave e uv'))"
proof (intro conjI impI)
  show "ring 0 0 = 1" by (simp add: ring_def)
  show "atten 0 0 = 1" by (simp add: atten_def)
next
  assume h: "nonzero (uResolution u) \<and> max (uTime u - uClickTimes u ! i) 0 = 0 \<and>
    distance uv (cuv_of (uResolution u) (8 * PIXEL_SIZE) (uClickPos u ! i)) = 0"
  then have t: "max (uTime u - uClickTimes u ! i) 0 = 0"
    and d: "distance uv (cuv_of (uResolution u) (8 * PIXEL_SIZE) (uClickPos u ! i)) = 0"
    by simp_all
  have "contribution u uv i = ring 0 0 * atten 0 0"
    unfolding contribution_def Let_def t d ..
  then show c: "contribution u uv i = 1" by (simp add: ring_def atten_def)
  assume "i < MAX_CLICKS \<and> \<not> empty_slot (uClickPos u ! i)"
  then have "1 \<le> feed u uv" using feed_ge[of i u uv] c by simp
  moreover have "feed u uv \<le> 1"
    unfolding feed_eq_Max by (intro Max.boundedI) (auto simp: contribution_le_1)
  ultimately show "feed u uv = 1" by simp
next
  show "timeAttenuation e 0 = 1" by (simp add: timeAttenuation_def)
  show "distanceAttenuation e 0 = 1" by (simp add: distanceAttenuation_def)
next
  assume h: "nonzero (uResolution e) \<and> max (uTime e - uClickTimes e ! k) 0 = 0 \<and>
    distance uv' (cuv_of (uResolution e) (CELL_PIXEL_SIZE * uPixelSize e) (uClickPos e ! k)) = 0 \<and>
    uWaveThickness e \<noteq> 0"
  let ?cuv = "cuv_of (uResolution e) (CELL_PIXEL_SIZE * uPixelSize e) (uClickPos e ! k)"
  have d: "distance uv' ?cuv = 0" and t: "max (uTime e - uClickTimes e ! k) 0 = 0"
    using h by simp_all
  show w: "calculateWave uv' ?cuv 0 (uWaveSpeed e) (uWaveThickness e) = 0.7"
    unfolding calculateWave_def Let_def d by simp
  have "finalWave e uv' k =
      calculateWave uv' ?cuv 0 (uWaveSpeed e) (uWaveThickness e) * timeAttenuation e 0 *
        distanceAttenuation e 0"
    unfolding finalWave_def Let_def t d ..
  then show c: "finalWave e uv' k = 0.7"
    unfolding w by (simp add: timeAttenuation_def distanceAttenuation_def)
  assume "k < MAX_CLICKS_E \<and> \<not> empty_slot (uClickPos e ! k)"
  then show "0.7 \<le> totalWave e uv'" using totalWave_ge[of k e uv'] c by simp
qed


text \<open>
  A viewport of 800 by 600 pixels with pixel size 4: the position \<open>(416, 316)\<close> has its
  centre at the sample point \<open>(0, 0)\<close>.
\<close>

lemma cuv_centre: "cuv_of (800, 600) 32 (416, 316) = (0, 0)"
  by (simp add: cuv_of_def vmul_def vdiv_def vsubs_def vsub_def vscale_def)

text \<open>
  Two ripples at the same position and time. In the elaborated shader with wave speed 0
  and time decay \<open>ln (7 / 4)\<close>, one second after the clicks each contributes
  \<open>0.7 * 4 / 7 = 0.4\<close>, and the aggregate is 0.4.
\<close>

theorem aggregate_is_max_witness:
  "feed (init\<lparr>uResolution := (800, 600),
              uClickPos := (uClickPos init)[0 := (416, 316), 1 := (416, 316)]\<rparr>) (0, 0) =
     contribution (init\<lparr>uResolution := (800, 600),
              uClickPos := (uClickPos init)[0 := (416, 316), 1 := (416, 316)]\<rparr>) (0, 0) 0 \<and>
   contribution (init\<lparr>uResolution := (800, 600),
              uClickPos := (uClickPos init)[0 := (416, 316), 1 := (416, 316)]\<rparr>) (0, 0) 1 =
     contribution (init\<lparr>uResolution := (800, 600),
              uClickPos := (uClickPos init)[0 := (416, 316), 1 := (416, 316)]\<rparr>) (0, 0) 0 \<and>
   finalWave (init_E\<lparr>uResolution := (800, 600),
              uClickPos := (uClickPos init_E)[0 := (416, 316), 1 := (416, 316)],
              uTime := 1, uWaveSpeed := 0, uTimeDecay := ln (7 / 4)\<rparr>) (0, 0) 0 = 0.4 \<and>
   finalWave (init_E\<lparr>uResolution := (800, 600),
              uClickPos := (uClickPos init_E)[0 := (416, 316), 1 := (416, 316)],
              uTime := 1, uWaveSpeed := 0, uTimeDecay := ln (7 / 4)\<rparr>) (0, 0) 1 = 0.4 \<and>
   totalWave (init_E\<lparr>uResolution := (800, 600),
              uClickPos := (uClickPos init_E)[0 := (416, 316), 1 := (416, 316)],
              uTime := 1, uWaveSpeed := 0, uTimeDecay := ln (7 / 4)\<rparr>) (0, 0) = 0.4"
proof -
  define u where "u = init\<lparr>uResolution := (800, 600),
              uClickPos := (uClickPos init)[0 := (416, 316), 1 := (416, 316)]\<rparr>"
  define e where "e = init_E\<lparr>uResolution := (800, 600),
              uClickPos := (uClickPos init_E)[0 := (416, 316), 1 := (416, 316)],
              uTime := 1, uWaveSpeed := 0, uTimeDecay := ln (7 / 4)\<rparr>"
  have pu: "uClickPos u ! j = (if j = 0 \<or> j = 1 then (416, 316) else sentinel)"
    if "j < MAX_CLICKS" for j
    using that by (simp add: u_def init_def MAX_CLICKS_def nth_list_update)
  have pe: "uClickPos e ! j = (if j = 0 \<or> j = 1 then (416, 316) else sentinel)"
    if "j < MAX_CLICKS_E" for j
    using that by (simp add: e_def init_E_def MAX_CLICKS_E_def nth_list_update)
  have es: "empty_slot sentinel" "\<not> empty_slot (416, 316)"
    by (simp_all add: empty_slot_def sentinel_def)
  have cu: "contribution u (0, 0) 1 = contribution u (0, 0) 0"
    by (simp add: contribution_def u_def init_def MAX_CLICKS_def)
  have ee: "exp (- ln (7 / 4 :: real)) = 4 / 7"
    by (simp add: exp_minus)
  have fl: "uResolution e = (800, 600)" "uPixelSize e = 4" "uTime e = 1"
    "uWaveSpeed e = 0" "uTimeDecay e = ln (7 / 4)" "uClickTimes e ! 0 = 0" "uClickTimes e ! 1 = 0"
    "uClickPos e ! 0 = (416, 316)" "uClickPos e ! 1 = (416, 316)"
    by (simp_all add: e_def init_E_def MAX_CLICKS_E_def)
  have ta: "timeAttenuation e 1 = 4 / 7"
    unfolding timeAttenuation_def fl by (simp add: ee)
  have da: "distanceAttenuation e 0 = 1"
    by (simp add: distanceAttenuation_def)
  have cw: "calculateWave (0, 0) (0, 0) 1 0 th = 0.7" for th
    by (simp add: calculateWave_def distance_self)
  have f0: "finalWave e (0, 0) 0 = 0.4"
    unfolding finalWave_def Let_def fl CELL_PIXEL_SIZE_def
    by (simp add: cuv_centre distance_self cw ta da)
  have f1: "finalWave e (0, 0) 1 = 0.4"
    unfolding finalWave_def Let_def fl CELL_PIXEL_SIZE_def
    by (simp add: cuv_centre distance_self cw ta da)
  have hu: "0 < MAX_CLICKS \<and> \<not> empty_slot (uClickPos u ! 0) \<and>
    (\<forall>j<MAX_CLICKS. \<not> empty_slot (uClickPos u ! j) \<longrightarrow>
        contribution u (0, 0) j \<le> contribution u (0, 0) 0)"
    using pu es cu by (auto simp: MAX_CLICKS_def)
  have he: "0 < MAX_CLICKS_E \<and> \<not> empty_slot (uClickPos e ! 0) \<and>
    (\<forall>j<MAX_CLICKS_E. \<not> empty_slot (uClickPos e ! j) \<longrightarrow>
        finalWave e (0, 0) j \<le> finalWave e (0, 0) 0)"
    using pe es f0 f1 by (auto simp: MAX_CLICKS_E_def)
  have nu: "nonzero (uResolution u)"
    by (simp add: u_def nonzero_def)
  have ne: "nonzero (uResolution e) \<and> uWaveThickness e \<noteq> 0"
    by (simp add: e_def init_E_def nonzero_def)
  note w = aggregate_is_max[of u "(0, 0)" 0 e 0]
  have A: "feed u (0, 0) = contribution u (0, 0) 0"
    using mp[OF conjunct1[OF w] nu] hu by blast
  have B: "totalWave e (0, 0) = finalWave e (0, 0) 0"
    using mp[OF conjunct2[OF w] ne] he by blast
  from A B cu f0 f1 show ?thesis unfolding u_def e_def by simp
qed

theorem spawn_centre_intensity_witness:
  "(let u = init\<lparr>uResolution := (800, 600), uClickPos := (uClickPos init)[0 := (416, 316)]\<rparr>;
        e = init_E\<lparr>uResolution := (800, 600), uClickPos := (uClickPos init_E)[0 := (416, 316)]\<rparr>
    in contribution u (0, 0) 0 = 1 \<and> feed u (0, 0) = 1 \<and>
       finalWave e (0, 0) 0 = 0.7 \<and> 0.7 \<le> totalWave e (0, 0))"
proof -
  define u where "u = init\<lparr>uResolution := (800, 600), uClickPos := (uClickPos init)[0 := (416, 316)]\<rparr>"
  define e where "e = init_E\<lparr>uResolution := (800, 600), uClickPos := (uClickPos init_E)[0 := (416, 316)]\<rparr>"
  have fu: "uResolution u = (800, 600)" "uTime u = 0" "uClickTimes u ! 0 = 0"
    "uClickPos u ! 0 = (416, 316)"
    by (simp_all add: u_def init_def MAX_CLICKS_def)
  have fe: "uResolution e = (800, 600)" "uPixelSize e = 4" "uTime e = 0" "uClickTimes e ! 0 = 0"
    "uClickPos e ! 0 = (416, 316)" "uWaveThickness e = 12 / 100"
    by (simp_all add: e_def init_E_def MAX_CLICKS_E_def)
  have hu: "nonzero (uResolution u) \<and> max (uTime u - uClickTimes u ! 0) 0 = 0 \<and>
      distance (0, 0) (cuv_of (uResolution u) (8 * PIXEL_SIZE) (uClickPos u ! 0)) = 0"
    unfolding fu PIXEL_SIZE_def by (simp add: cuv_centre distance_self nonzero_def)
  have hu2: "0 < MAX_CLICKS \<and> \<not> empty_slot (uClickPos u ! 0)"
    unfolding fu by (simp add: MAX_CLICKS_def empty_slot_def)
  have he: "nonzero (uResolution e) \<and> max (uTime e - uClickTimes e ! 0) 0 = 0 \<and>
      distance (0, 0) (cuv_of (uResolution e) (CELL_PIXEL_SIZE * uPixelSize e) (uClickPos e ! 0)) = 0 \<and>
      uWaveThickness e \<noteq> 0"
    unfolding fe CELL_PIXEL_SIZE_def by (simp add: cuv_centre distance_self nonzero_def)
  have he2: "0 < MAX_CLICKS_E \<and> \<not> empty_slot (uClickPos e ! 0)"
    unfolding fe by (simp add: MAX_CLICKS_E_def empty_slot_def)
  note w = spawn_centre_intensity[of u 0 "(0, 0)" e 0 "(0, 0)"]
  from mp[OF conjunct1[OF w] hu] hu2
  have A: "contribution u (0, 0) 0 = 1 \<and> feed u (0, 0) = 1" by blast
  from mp[OF conjunct2[OF w] he] he2
  have B: "finalWave e (0, 0) 0 = 0.7 \<and> 0.7 \<le> totalWave e (0, 0)" by blast
  from A B show ?thesis unfolding Let_def u_def e_def by blast
qed

text \<open>
  Claim C6 as stated fails in the elaborated shader: with the initial parameters, a
  ripple at elapsed time 0 and radial distance 0 contributes 0.7, and the intensity at
  that point is 0.7.
\<close>

theorem spawn_centre_elaborated_counterexample:
  "(let e = init_E\<lparr>uResolution := (800, 600), uClickPos := (uClickPos init_E)[0 := (416, 316)]\<rparr>
    in max (uTime e - uClickTimes e ! 0) 0 = 0 \<and>
       distance (0, 0) (cuv_of (uResolution e) (CELL_PIXEL_SIZE * uPixelSize e) (uClickPos e ! 0)) = 0 \<and>
       finalWave e (0, 0) 0 = 7 / 10 \<and> totalWave e (0, 0) = 7 / 10)"
proof -
  define e where "e = init_E\<lparr>uResolution := (800, 600), uClickPos := (uClickPos init_E)[0 := (416, 316)]\<rparr>"
  have fe: "uResolution e = (800, 600)" "uPixelSize e = 4" "uTime e = 0" "uClickTimes e ! 0 = 0"
    "uClickPos e ! 0 = (416, 316)" "uWaveThickness e = 12 / 100"
    by (simp_all add: e_def init_E_def MAX_CLICKS_E_def)
  have pe: "uClickPos e ! j = (if j = 0 then (416, 316) else sentinel)"
    if "j < MAX_CLICKS_E" for j
    using that by (simp add: e_def init_E_def MAX_CLICKS_E_def nth_list_update)
  have t0: "max (uTime e - uClickTimes e ! 0) 0 = 0" unfolding fe by simp
  have d0: "distance (0, 0) (cuv_of (uResolution e) (CELL_PIXEL_SIZE * uPixelSize e) (uClickPos e ! 0)) = 0"
    unfolding fe CELL_PIXEL_SIZE_def by (simp add: cuv_centre distance_self)
  have f0: "finalWave e (0, 0) 0 = 7 / 10"
    unfolding finalWave_def Let_def t0 d0
    unfolding fe CELL_PIXEL_SIZE_def
    by (simp add: cuv_centre calculateWave_def distance_self timeAttenuation_def distanceAttenuation_def)
  have "totalWave e (0, 0) = finalWave e (0, 0) 0"
    using pe by (intro totalWave_dominant) (auto simp: MAX_CLICKS_E_def empty_slot_def sentinel_def)
  with t0 d0 f0 show ?thesis unfolding Let_def e_def by simp
qed

subsection \<open>Decay in time\<close>

lemma rne_cases: "rne x = \<lfloor>x\<rfloor> \<or> rne x = \<lfloor>x\<rfloor> + 1"
  by (simp add: rne_def Let_def)

lemma rne_mono: assumes "x \<le> y" shows "rne x \<le> rne y"
proof (cases "\<lfloor>x\<rfloor> < \<lfloor>y\<rfloor>")
  case True
  then show ?thesis using rne_cases[of x] rne_cases[of y] by linarith
next
  case False
  then have eq: "\<lfloor>x\<rfloor> = \<lfloor>y\<rfloor>" using floor_mono[OF assms] by linarith
  show ?thesis using assms unfolding rne_def Let_def eq by auto
qed

lemma rne_of_int [simp]: "rne (of_int k) = k"
  by (simp add: rne_def Let_def)

lemma rne_nonneg: "0 \<le> x \<Longrightarrow> 0 \<le> rne x"
  using rne_mono[of 0 x] rne_of_int[of 0] by simp

lemma rne_half: assumes "0 \<le> x" "x \<le> 1 / 2" shows "rne x = 0"
proof -
  have "\<lfloor>x\<rfloor> = 0" using assms by (intro floor_unique) simp_all
  then show ?thesis using assms by (simp add: rne_def Let_def)
qed

lemma ulp32_pos: "0 < ulp32 x" by (simp add: ulp32_def)

lemma ulp32_abs: "ulp32 (- x) = ulp32 x" by (simp add: ulp32_def expo32_def)

lemma round32_minus: "round32 (- x) = - round32 x"
  by (simp add: round32_def ulp32_abs sgn_minus)

lemma round32_0 [simp]: "round32 0 = 0" by (simp add: round32_def)

lemma round32_nonneg: "0 \<le> x \<Longrightarrow> 0 \<le> round32 x"
  unfolding round32_def
  by (intro mult_nonneg_nonneg) (simp_all add: rne_nonneg ulp32_pos less_imp_le sgn_real_def)

lemma round32_pos_eq: "0 < x \<Longrightarrow> round32 x = of_int (rne (x / ulp32 x)) * ulp32 x"
  by (simp add: round32_def)

lemma expo32_mono: assumes "0 < x" "x \<le> y" shows "expo32 x \<le> expo32 y"
proof -
  have "log 2 \<bar>x\<bar> \<le> log 2 \<bar>y\<bar>" using assms by simp
  then have "\<lfloor>log 2 \<bar>x\<bar>\<rfloor> \<le> \<lfloor>log 2 \<bar>y\<bar>\<rfloor>" by (rule floor_mono)
  then show ?thesis by (simp add: expo32_def)
qed

lemma below_next: assumes "0 < x" shows "x < 2 powr of_int (expo32 x + 1)"
proof -
  have "log 2 x < of_int (\<lfloor>log 2 x\<rfloor> + 1)" by linarith
  also have "\<dots> \<le> of_int (expo32 x + 1)" using assms by (simp add: expo32_def)
  finally have "log 2 x < of_int (expo32 x + 1)" .
  then show ?thesis using assms by (simp add: log_less_iff)
qed

lemma above_binade: assumes "0 < x" "- 126 < expo32 x" shows "2 powr of_int (expo32 x) \<le> x"
proof -
  have e: "expo32 x = \<lfloor>log 2 x\<rfloor>" using assms by (simp add: expo32_def max_def split: if_splits)
  have "of_int (expo32 x) \<le> log 2 x" unfolding e by simp
  then show ?thesis using assms(1) by (simp add: le_log_iff)
qed

lemma powr_split: "(2::real) powr (r + 1) = 2 ^ 24 * 2 powr (r - 23)"
proof -
  have "r + 1 = 24 + (r - 23)" by simp
  then have "(2::real) powr (r + 1) = 2 powr (24 + (r - 23))" by (rule arg_cong)
  also have "\<dots> = 2 powr 24 * 2 powr (r - 23)" by (rule powr_add)
  also have "(2::real) powr 24 = 2 ^ 24" by (simp add: powr_numeral)
  finally show ?thesis .
qed

lemma powr_split2: "(2::real) powr r = 2 ^ 23 * 2 powr (r - 23)"
proof -
  have "r = 23 + (r - 23)" by simp
  then have "(2::real) powr r = 2 powr (23 + (r - 23))" by (rule arg_cong)
  also have "\<dots> = 2 powr 23 * 2 powr (r - 23)" by (rule powr_add)
  also have "(2::real) powr 23 = 2 ^ 23" by (simp add: powr_numeral)
  finally show ?thesis .
qed

lemma ulp32_eq: "ulp32 x = 2 powr (of_int (expo32 x) - 23)"
  by (simp add: ulp32_def)

lemma round32_le_next: assumes "0 < x" shows "round32 x \<le> 2 powr (of_int (expo32 x) + 1)"
proof -
  have b: "x < 2 powr (of_int (expo32 x) + 1)" using below_next[OF assms] by simp
  have "x \<le> 2 ^ 24 * ulp32 x"
    using b unfolding powr_split[of "of_int (expo32 x)"] ulp32_eq by simp
  then have "x / ulp32 x \<le> 2 ^ 24" using ulp32_pos[of x] by (simp add: pos_divide_le_eq)
  then have "rne (x / ulp32 x) \<le> rne (of_int (2 ^ 24))" by (intro rne_mono) simp
  then have "rne (x / ulp32 x) \<le> 2 ^ 24" by (simp only: rne_of_int)
  then have "(of_int (rne (x / ulp32 x)) :: real) \<le> of_int (2 ^ 24)" by (simp only: of_int_le_iff)
  then have "(of_int (rne (x / ulp32 x)) :: real) \<le> 2 ^ 24" by simp
  then have "of_int (rne (x / ulp32 x)) * ulp32 x \<le> 2 ^ 24 * ulp32 x"
    using ulp32_pos[of x] by (intro mult_right_mono) simp_all
  then show ?thesis
    unfolding round32_pos_eq[OF assms] powr_split[of "of_int (expo32 x)"] ulp32_eq .
qed

lemma round32_ge_binade: assumes "0 < x" "- 126 < expo32 x"
  shows "2 powr of_int (expo32 x) \<le> round32 x"
proof -
  have "2 ^ 23 * ulp32 x \<le> x"
    using above_binade[OF assms] unfolding powr_split2[of "of_int (expo32 x)"] ulp32_eq .
  then have "2 ^ 23 \<le> x / ulp32 x" using ulp32_pos[of x] by (simp add: pos_le_divide_eq)
  then have "rne (of_int (2 ^ 23)) \<le> rne (x / ulp32 x)" by (intro rne_mono) simp
  then have "2 ^ 23 \<le> rne (x / ulp32 x)" by (simp only: rne_of_int)
  then have "(of_int (2 ^ 23) :: real) \<le> of_int (rne (x / ulp32 x))" by (simp only: of_int_le_iff)
  then have "(2 ^ 23 :: real) \<le> of_int (rne (x / ulp32 x))" by simp
  then have "2 ^ 23 * ulp32 x \<le> of_int (rne (x / ulp32 x)) * ulp32 x"
    using ulp32_pos[of x] by (intro mult_right_mono) simp_all
  then show ?thesis
    unfolding round32_pos_eq[OF assms(1)] powr_split2[of "of_int (expo32 x)"] ulp32_eq .
qed

lemma round32_mono_pos: assumes "0 < x" "x \<le> y" shows "round32 x \<le> round32 y"
proof (cases "expo32 x = expo32 y")
  case True
  then have u: "ulp32 x = ulp32 y" by (simp add: ulp32_def)
  have y: "0 < y" using assms by simp
  have "x / ulp32 y \<le> y / ulp32 y" using assms ulp32_pos[of y] by (simp add: divide_right_mono)
  then have "rne (x / ulp32 y) \<le> rne (y / ulp32 y)" by (rule rne_mono)
  then have "(of_int (rne (x / ulp32 y)) :: real) \<le> of_int (rne (y / ulp32 y))" by simp
  then have "of_int (rne (x / ulp32 y)) * ulp32 y \<le> of_int (rne (y / ulp32 y)) * ulp32 y"
    using ulp32_pos[of y] by (intro mult_right_mono) simp_all
  then show ?thesis by (simp add: round32_pos_eq[OF assms(1)] round32_pos_eq[OF y] u)
next
  case False
  then have lt: "expo32 x + 1 \<le> expo32 y" using expo32_mono[OF assms] by linarith
  have y: "0 < y" using assms by simp
  have big: "- 126 < expo32 y" using lt by (simp add: expo32_def)
  have "round32 x \<le> 2 powr (of_int (expo32 x) + 1)" by (rule round32_le_next[OF assms(1)])
  also have "\<dots> = 2 powr of_int (expo32 x + 1)" by simp
  also have "\<dots> \<le> 2 powr of_int (expo32 y)" using lt by simp
  also have "\<dots> \<le> round32 y" by (rule round32_ge_binade[OF y big])
  finally show ?thesis .
qed

lemma round32_mono: assumes "x \<le> y" shows "round32 x \<le> round32 y"
proof -
  consider "0 < x" | "x \<le> 0" "0 \<le> y" | "y < 0" using assms by linarith
  then show ?thesis
  proof cases
    case 1 then show ?thesis using assms by (rule round32_mono_pos)
  next
    case 2
    have "0 \<le> round32 (- x)" using 2 by (intro round32_nonneg) simp
    then have "round32 x \<le> 0" by (simp add: round32_minus)
    also have "0 \<le> round32 y" using 2 by (intro round32_nonneg)
    finally show ?thesis .
  next
    case 3
    have "round32 (- y) \<le> round32 (- x)" using 3 assms by (intro round32_mono_pos) simp_all
    then show ?thesis by (simp add: round32_minus)
  qed
qed

lemma round32_underflow: assumes "0 \<le> x" "x \<le> 2 powr (- 150)" shows "round32 x = 0"
proof (cases "x = 0")
  case True then show ?thesis by simp
next
  case False
  then have p: "0 < x" using assms by simp
  have "log 2 x \<le> - 150" using p assms(2) by (simp add: log_le_iff)
  then have "\<lfloor>log 2 x\<rfloor> \<le> - 150" by (simp add: floor_le_iff)
  then have e: "expo32 x = - 126" using p by (simp add: expo32_def)
  have u: "ulp32 x = 2 powr (- 149)" by (simp add: ulp32_def e)
  have "(- 150 :: real) = - 1 + - 149" by simp
  then have "(2::real) powr (- 150) = 2 powr (- 1 + - 149)" by (rule arg_cong)
  also have "\<dots> = 2 powr (- 1) * 2 powr (- 149)" by (rule powr_add)
  also have "(2::real) powr (- 1) = 1 / 2" by (simp add: powr_minus)
  finally have "x \<le> 1 / 2 * 2 powr (- 149)" using assms(2) by simp
  then have "x / 2 powr (- 149) \<le> 1 / 2" by (simp add: pos_divide_le_eq)
  then have "rne (x / ulp32 x) = 0" unfolding u using p by (intro rne_half) simp_all
  then show ?thesis by (simp add: round32_pos_eq[OF p])
qed

lemma ln2_le: "ln (2::real) \<le> 52 / 75"
proof -
  have "1 + (13 / 600) + (13 / 600)\<^sup>2 / 2 \<le> exp (13 / 600 :: real)"
    by (rule exp_lower_Taylor_quadratic) simp
  then have a: "(735769 / 720000 :: real) \<le> exp (13 / 600)" by (simp add: power2_eq_square)
  have "(2::real) \<le> (735769 / 720000) ^ 32" by (simp add: power_divide)
  also have "\<dots> \<le> exp (13 / 600 :: real) ^ 32" using a by (intro power_mono) simp_all
  also have "\<dots> = exp (of_nat 32 * (13 / 600 :: real))" by (rule exp_of_nat_mult[symmetric])
  also have "of_nat 32 * (13 / 600 :: real) = 52 / 75" by simp
  finally have "(2::real) \<le> exp (52 / 75)" .
  then have "ln (2::real) \<le> ln (exp (52 / 75))" by (intro ln_mono) simp_all
  then show ?thesis by simp
qed

lemma exp_underflow: assumes "(z::real) \<le> - 104" shows "exp z \<le> 2 powr (- 150)"
proof -
  have "150 * ln (2::real) \<le> 104" using ln2_le by simp
  then have "z \<le> - 150 * ln 2" using assms by simp
  then have "exp z \<le> exp (- 150 * ln 2)" by (simp only: exp_le_cancel_iff)
  also have "\<dots> = 2 powr (- 150)" by (simp add: powr_def)
  finally show ?thesis .
qed

lemma expo32_104: "expo32 104 = 6"
proof -
  have "\<lfloor>log 2 (104::real)\<rfloor> = 6"
  proof (rule floor_unique)
    show "of_int 6 \<le> log 2 (104::real)" by (simp add: le_log_iff powr_numeral)
    show "log 2 (104::real) < of_int 6 + 1" by (simp add: log_less_iff powr_numeral)
  qed
  then show ?thesis by (simp add: expo32_def)
qed

lemma round32_104: "round32 104 = 104"
proof -
  have u: "ulp32 104 = 1 / 2 ^ 17"
    by (simp add: ulp32_def expo32_104 powr_minus powr_numeral)
  have "(104::real) / ulp32 104 = of_int (104 * 2 ^ 17)" unfolding u by simp
  then have "rne (104 / ulp32 104) = 104 * 2 ^ 17" by (simp only: rne_of_int)
  then show ?thesis by (simp add: round32_pos_eq u)
qed

lemma round32_exp_underflow: assumes "z \<le> - 104" shows "round32 (exp z) = 0"
  by (rule round32_underflow[OF exp_ge_zero exp_underflow[OF assms]])

lemma round32_neg_le: assumes "104 \<le> p" shows "round32 (- p) \<le> - 104"
proof -
  have "round32 (- p) \<le> round32 (- 104)" using assms by (intro round32_mono) simp
  then show ?thesis by (simp add: round32_minus round32_104)
qed

lemma time_factor32_mono:
  assumes "0 \<le> d" "t1 \<le> t2"
  shows "round32 (exp (round32 (- d * t2))) \<le> round32 (exp (round32 (- d * t1)))"
proof -
  have "- d * t2 \<le> - d * t1" using assms by (simp add: mult_left_mono)
  then have "round32 (- d * t2) \<le> round32 (- d * t1)" by (rule round32_mono)
  then have "exp (round32 (- d * t2)) \<le> exp (round32 (- d * t1))" by simp
  then show ?thesis by (rule round32_mono)
qed

lemma time_factor32_zero:
  assumes "104 \<le> d * t"
  shows "round32 (exp (round32 (- d * t))) = 0"
proof -
  have "round32 (- (d * t)) \<le> - 104" by (rule round32_neg_le[OF assms])
  then have "round32 (- d * t) \<le> - 104" by simp
  then show ?thesis by (rule round32_exp_underflow)
qed

lemma atten32_mono: assumes "t1 \<le> t2" shows "atten32 t2 r \<le> atten32 t1 r"
proof -
  have "round32 (exp (round32 (- dampT * t2))) \<le> round32 (exp (round32 (- dampT * t1)))"
    using assms by (intro time_factor32_mono) (simp_all add: dampT_def)
  moreover have "0 \<le> round32 (exp (round32 (- dampR * r)))" by (intro round32_nonneg) simp
  ultimately have "round32 (exp (round32 (- dampT * t2))) * round32 (exp (round32 (- dampR * r)))
      \<le> round32 (exp (round32 (- dampT * t1))) * round32 (exp (round32 (- dampR * r)))"
    by (rule mult_right_mono)
  then show ?thesis unfolding atten32_def by (rule round32_mono)
qed

lemma atten32_zero: assumes "104 \<le> t" shows "atten32 t r = 0"
proof -
  have "104 \<le> dampT * t" using assms by (simp add: dampT_def)
  then have "round32 (exp (round32 (- dampT * t))) = 0" by (rule time_factor32_zero)
  then show ?thesis by (simp add: atten32_def)
qed

lemma timeAttenuation32_zero: assumes "104 \<le> uTimeDecay e * t" shows "timeAttenuation32 e t = 0"
  unfolding timeAttenuation32_def by (rule time_factor32_zero[OF assms])

lemma exp_decay_tendsto:
  assumes "0 < d"
  shows "((\<lambda>T::real. exp (- (d * (T - t0)))) \<longlongrightarrow> 0) at_top"
proof -
  have "LIM T at_top. - t0 + T :> at_top"
    by (rule filterlim_tendsto_add_at_top[OF tendsto_const filterlim_ident])
  then have a: "LIM T at_top. T - t0 :> at_top" by simp
  have "LIM T at_top. d * (T - t0) :> at_top"
    by (rule filterlim_tendsto_pos_mult_at_top[OF tendsto_const assms a])
  then have "LIM T at_top. - (d * (T - t0)) :> at_bot"
    by (simp add: filterlim_uminus_at_bot)
  then show ?thesis by (rule filterlim_compose[OF exp_at_bot])
qed

lemma calculateWave_le: "calculateWave p c t sp th \<le> 0.91"
proof -
  have a: "(1 + 0.3 * sin x) * 0.7 \<le> (0.91::real)" for x :: real
    using sin_le_one[of x] by simp
  have b: "0 \<le> (1 + 0.3 * sin x) * (0.7::real)" for x :: real
    using sin_ge_minus_one[of x] by (intro mult_nonneg_nonneg) linarith+
  have "exp (- (y\<^sup>2)) * ((1 + 0.3 * sin x) * 0.7) \<le> 1 * (0.91::real)" for x y :: real
    by (intro mult_mono a b) simp_all
  then show ?thesis by (simp add: calculateWave_def Let_def)
qed

lemma contribution_tendsto:
  "((\<lambda>T. contribution (u\<lparr>uTime := T\<rparr>) uv i) \<longlongrightarrow> 0) at_top"
proof -
  define t0 where "t0 = uClickTimes u ! i"
  define r where "r = distance uv (cuv_of (uResolution u) (8 * PIXEL_SIZE) (uClickPos u ! i))"
  have c: "contribution (u\<lparr>uTime := T\<rparr>) uv i = ring (max (T - t0) 0) r * atten (max (T - t0) 0) r" for T
    by (simp add: contribution_def Let_def t0_def r_def)
  have bound: "norm (contribution (u\<lparr>uTime := T\<rparr>) uv i) \<le> norm (exp (- (1 * (T - t0)))) * exp (- r)"
    if "t0 \<le> T" for T
  proof -
    have m: "max (T - t0) 0 = T - t0" using that by simp
    have le: "ring (T - t0) r * atten (T - t0) r \<le> 1 * atten (T - t0) r"
      by (intro mult_right_mono ring_le_1) (simp add: atten_def)
    have nn: "0 \<le> ring (T - t0) r * atten (T - t0) r"
      by (simp add: ring_def atten_def Let_def)
    have "norm (contribution (u\<lparr>uTime := T\<rparr>) uv i) = ring (T - t0) r * atten (T - t0) r"
      unfolding c m using nn by simp
    also note le
    also have "1 * atten (T - t0) r = norm (exp (- (1 * (T - t0)))) * exp (- r)"
      by (simp add: atten_def dampT_def dampR_def)
    finally show ?thesis .
  qed
  have ev: "eventually (\<lambda>T. norm (contribution (u\<lparr>uTime := T\<rparr>) uv i) \<le>
          norm (exp (- (1 * (T - t0)))) * exp (- r)) at_top"
    using eventually_ge_at_top[of t0] by (rule eventually_mono) (rule bound)
  have lim: "((\<lambda>T. exp (- (1 * (T - t0)))) \<longlongrightarrow> 0) at_top"
    by (rule exp_decay_tendsto) simp
  show ?thesis by (rule tendsto_0_le[OF lim ev])
qed

lemma finalWave_tendsto:
  assumes "0 < uTimeDecay e"
  shows "((\<lambda>T. finalWave (e\<lparr>uTime := T\<rparr>) uv k) \<longlongrightarrow> 0) at_top"
proof -
  define t0 where "t0 = uClickTimes e ! k"
  define c where "c = cuv_of (uResolution e) (CELL_PIXEL_SIZE * uPixelSize e) (uClickPos e ! k)"
  define d where "d = uTimeDecay e"
  define K where "K = 0.91 * exp (- uDistanceDecay e * distance uv c)"
  have f: "finalWave (e\<lparr>uTime := T\<rparr>) uv k =
      calculateWave uv c (max (T - t0) 0) (uWaveSpeed e) (uWaveThickness e) *
      exp (- d * max (T - t0) 0) * exp (- uDistanceDecay e * distance uv c)" for T
    by (simp add: finalWave_def Let_def t0_def c_def d_def timeAttenuation_def
        distanceAttenuation_def)
  have bound: "norm (finalWave (e\<lparr>uTime := T\<rparr>) uv k) \<le> norm (exp (- (d * (T - t0)))) * K"
    if "t0 \<le> T" for T
  proof -
    have m: "max (T - t0) 0 = T - t0" using that by simp
    let ?w = "calculateWave uv c (T - t0) (uWaveSpeed e) (uWaveThickness e)"
    let ?a = "exp (- d * (T - t0)) * exp (- uDistanceDecay e * distance uv c)"
    have w: "0 \<le> ?w" "?w \<le> 0.91" by (rule calculateWave_nonneg, rule calculateWave_le)
    have a: "0 \<le> ?a" by simp
    have le: "?w * ?a \<le> 0.91 * ?a"
      using w(2) a by (rule mult_right_mono)
    have nn: "0 \<le> ?w * ?a" using w(1) a by (rule mult_nonneg_nonneg)
    have "norm (finalWave (e\<lparr>uTime := T\<rparr>) uv k) = ?w * ?a"
      unfolding f m using nn by (simp add: mult.assoc)
    also note le
    also have "0.91 * ?a = norm (exp (- (d * (T - t0)))) * K"
      unfolding K_def by simp
    finally show ?thesis .
  qed
  have ev: "eventually (\<lambda>T. norm (finalWave (e\<lparr>uTime := T\<rparr>) uv k) \<le>
          norm (exp (- (d * (T - t0)))) * K) at_top"
    using eventually_ge_at_top[of t0] by (rule eventually_mono) (rule bound)
  have lim: "((\<lambda>T. exp (- (d * (T - t0)))) \<longlongrightarrow> 0) at_top"
    by (rule exp_decay_tendsto) (use assms in \<open>simp add: d_def\<close>)
  show ?thesis by (rule tendsto_0_le[OF lim ev])
qed

text \<open>
  Claim C8, as amended. The shaders compute in binary32. For a fixed slot and sample
  point and a positive time-decay rate, the time-attenuation factor \<open>exp(-rate * t)\<close>
  (the rate is \<open>dampT = 1\<close> in the basic shader and \<open>uTimeDecay\<close> in the elaborated one)
  does not increase when the elapsed time \<open>t\<close> grows, and with it \<open>atten\<close> at a fixed
  distance; this holds at all elapsed times, so also once the wave front has passed
  the sample point. The factor is not strictly decreasing: it is exactly 0 as soon as
  \<open>rate * t\<close> is at least 104, where \<open>exp\<close> underflows, and from then on the contribution
  of the slot, the product of the wave term with the attenuation, is exactly 0 whatever
  the value of the wave term. In exact real arithmetic the contribution of the slot
  tends to 0 as \<open>uTime\<close> tends to infinity, for a resolution without a zero component
  (and, in the elaborated shader, a positive time-decay rate and a thickness other
  than 0).
\<close>

theorem time_decay:
  "(t1 \<le> t2 \<longrightarrow>
      round32 (exp (round32 (- dampT * t2))) \<le> round32 (exp (round32 (- dampT * t1))) \<and>
      atten32 t2 r \<le> atten32 t1 r) \<and>
   (104 \<le> t \<longrightarrow>
      round32 (exp (round32 (- dampT * t))) = 0 \<and> atten32 t r = 0 \<and> contribution32 w t r = 0) \<and>
   (0 < uTimeDecay e \<and> t1 \<le> t2 \<longrightarrow> timeAttenuation32 e t2 \<le> timeAttenuation32 e t1) \<and>
   (104 \<le> uTimeDecay e * t \<longrightarrow> timeAttenuation32 e t = 0 \<and> finalWave32 e w t r = 0) \<and>
   (nonzero (uResolution u) \<longrightarrow>
      ((\<lambda>T. contribution (u\<lparr>uTime := T\<rparr>) uv i) \<longlongrightarrow> 0) at_top) \<and>
   (0 < uTimeDecay e \<and> nonzero (uResolution e) \<and> uWaveThickness e \<noteq> 0 \<longrightarrow>
      ((\<lambda>T. finalWave (e\<lparr>uTime := T\<rparr>) uv k) \<longlongrightarrow> 0) at_top)"
proof (intro conjI impI)
  assume "t1 \<le> t2"
  then show "round32 (exp (round32 (- dampT * t2))) \<le> round32 (exp (round32 (- dampT * t1)))"
    by (intro time_factor32_mono) (simp_all add: dampT_def)
  show "atten32 t2 r \<le> atten32 t1 r" by (rule atten32_mono) fact
next
  assume h: "104 \<le> t"
  then have "104 \<le> dampT * t" by (simp add: dampT_def)
  then show "round32 (exp (round32 (- dampT * t))) = 0" by (rule time_factor32_zero)
  show a: "atten32 t r = 0" by (rule atten32_zero[OF h])
  show "contribution32 w t r = 0" by (simp add: contribution32_def a)
next
  assume "0 < uTimeDecay e \<and> t1 \<le> t2"
  then show "timeAttenuation32 e t2 \<le> timeAttenuation32 e t1"
    unfolding timeAttenuation32_def by (intro time_factor32_mono) simp_all
next
  assume h: "104 \<le> uTimeDecay e * t"
  show a: "timeAttenuation32 e t = 0" by (rule timeAttenuation32_zero[OF h])
  show "finalWave32 e w t r = 0" by (simp add: finalWave32_def a)
next
  show "((\<lambda>T. contribution (u\<lparr>uTime := T\<rparr>) uv i) \<longlongrightarrow> 0) at_top"
    by (rule contribution_tendsto)
next
  assume "0 < uTimeDecay e \<and> nonzero (uResolution e) \<and> uWaveThickness e \<noteq> 0"
  then have "0 < uTimeDecay e" by simp
  then show "((\<lambda>T. finalWave (e\<lparr>uTime := T\<rparr>) uv k) \<longlongrightarrow> 0) at_top"
    by (rule finalWave_tendsto)
qed

text \<open>
  In a viewport of 800 by 600, after one insertion at the centre into the initial
  registry of each variant, so that slot 0 is occupied: elapsed times 1 and 2, and the
  elapsed time 200, at which the factor is 0.
\<close>

theorem time_decay_witness:
  "atten32 2 (1 / 2) \<le> atten32 1 (1 / 2) \<and> atten32 200 (1 / 2) = 0 \<and>
   contribution32 1 200 (1 / 2) = 0 \<and>
   (\<exists>e. addRipple_E 400 300 (resize 800 600 init_E) = Inr e \<and>
      \<not> empty_slot (uClickPos e ! 0) \<and>
      timeAttenuation32 e 2 \<le> timeAttenuation32 e 1 \<and> timeAttenuation32 e 200 = 0 \<and>
      finalWave32 e 1 200 (1 / 2) = 0 \<and>
      ((\<lambda>T. finalWave (e\<lparr>uTime := T\<rparr>) (0, 0) 0) \<longlongrightarrow> 0) at_top) \<and>
   (\<exists>u. addRipple 400 300 (resize 800 600 init) = Inr u \<and>
      \<not> empty_slot (uClickPos u ! 0) \<and>
      ((\<lambda>T. contribution (u\<lparr>uTime := T\<rparr>) (0, 0) 0) \<longlongrightarrow> 0) at_top)"
proof -
  obtain u where u: "addRipple 400 300 (resize 800 600 init) = Inr u"
    "\<not> empty_slot (uClickPos u ! 0)" "nonzero (uResolution u)"
    by (simp add: addRipple_def resize_def init_def MAX_CLICKS_def empty_slot_def nonzero_def)
  obtain e where e: "addRipple_E 400 300 (resize 800 600 init_E) = Inr e"
    "\<not> empty_slot (uClickPos e ! 0)" "nonzero (uResolution e)" "uTimeDecay e = 8 / 10"
    "uWaveThickness e = 12 / 100"
    by (simp add: addRipple_E_def resize_def init_E_def MAX_CLICKS_E_def empty_slot_def
        nonzero_def Let_def)
  have h: "(1::real) \<le> 2" "(104::real) \<le> 200" "0 < uTimeDecay e \<and> (1::real) \<le> 2"
    "104 \<le> uTimeDecay e * 200"
    "0 < uTimeDecay e \<and> nonzero (uResolution e) \<and> uWaveThickness e \<noteq> 0"
    using e(3) by (simp_all add: e(4,5))
  note z = time_decay[of 1 2 "1 / 2" 200 1 e u "(0, 0)" 0 0]
  have A: "round32 (exp (round32 (- dampT * 2))) \<le> round32 (exp (round32 (- dampT * 1))) \<and>
      atten32 2 (1 / 2) \<le> atten32 1 (1 / 2)"
    by (rule mp[OF conjunct1[OF z] h(1)])
  have B: "round32 (exp (round32 (- dampT * 200))) = 0 \<and> atten32 200 (1 / 2) = 0 \<and>
      contribution32 1 200 (1 / 2) = 0"
    by (rule mp[OF conjunct1[OF conjunct2[OF z]] h(2)])
  have C: "timeAttenuation32 e 2 \<le> timeAttenuation32 e 1"
    by (rule mp[OF conjunct1[OF conjunct2[OF conjunct2[OF z]]] h(3)])
  have D: "timeAttenuation32 e 200 = 0 \<and> finalWave32 e 1 200 (1 / 2) = 0"
    by (rule mp[OF conjunct1[OF conjunct2[OF conjunct2[OF conjunct2[OF z]]]] h(4)])
  have E: "((\<lambda>T. contribution (u\<lparr>uTime := T\<rparr>) (0, 0) 0) \<longlongrightarrow> 0) at_top"
    by (rule mp[OF conjunct1[OF conjunct2[OF conjunct2[OF conjunct2[OF conjunct2[OF z]]]]] u(3)])
  have F: "((\<lambda>T. finalWave (e\<lparr>uTime := T\<rparr>) (0, 0) 0) \<longlongrightarrow> 0) at_top"
    by (rule mp[OF conjunct2[OF conjunct2[OF conjunct2[OF conjunct2[OF conjunct2[OF z]]]]] h(5)])
  have Q: "addRipple_E 400 300 (resize 800 600 init_E) = Inr e \<and>
      \<not> empty_slot (uClickPos e ! 0) \<and>
      timeAttenuation32 e 2 \<le> timeAttenuation32 e 1 \<and> timeAttenuation32 e 200 = 0 \<and>
      finalWave32 e 1 200 (1 / 2) = 0 \<and>
      ((\<lambda>T. finalWave (e\<lparr>uTime := T\<rparr>) (0, 0) 0) \<longlongrightarrow> 0) at_top"
    by (intro conjI) (rule e(1), rule e(2), rule C, rule conjunct1[OF D], rule conjunct2[OF D], rule F)
  have R: "addRipple 400 300 (resize 800 600 init) = Inr u \<and>
      \<not> empty_slot (uClickPos u ! 0) \<and>
      ((\<lambda>T. contribution (u\<lparr>uTime := T\<rparr>) (0, 0) 0) \<longlongrightarrow> 0) at_top"
    by (intro conjI) (rule u(1), rule u(2), rule E)
  have Q': "\<exists>e. addRipple_E 400 300 (resize 800 600 init_E) = Inr e \<and>
      \<not> empty_slot (uClickPos e ! 0) \<and>
      timeAttenuation32 e 2 \<le> timeAttenuation32 e 1 \<and> timeAttenuation32 e 200 = 0 \<and>
      finalWave32 e 1 200 (1 / 2) = 0 \<and>
      ((\<lambda>T. finalWave (e\<lparr>uTime := T\<rparr>) (0, 0) 0) \<longlongrightarrow> 0) at_top"
    by (rule exI[of _ e]) (rule Q)
  have R': "\<exists>u. addRipple 400 300 (resize 800 600 init) = Inr u \<and>
      \<not> empty_slot (uClickPos u ! 0) \<and>
      ((\<lambda>T. contribution (u\<lparr>uTime := T\<rparr>) (0, 0) 0) \<longlongrightarrow> 0) at_top"
    by (rule exI[of _ u]) (rule R)
  show ?thesis
    by (intro conjI)
      (rule conjunct2[OF A], rule conjunct1[OF conjunct2[OF B]],
       rule conjunct2[OF conjunct2[OF B]], rule Q', rule R')
qed

text \<open>
  Claim C8 as stated fails in binary32, where the decrease is not strict: with the
  initial time-decay rate 0.8 of the elaborated variant, and with \<open>dampT\<close> in the basic
  variant, the factor at the elapsed time 300 equals the factor at the elapsed time
  200; at both times the wave front has passed a sample point at the distance 1/2.
\<close>

theorem time_decay_strict_counterexample:
  "(let e = resize 800 600 init_E
    in 0 < uTimeDecay e \<and> 1 / 2 < uWaveSpeed e * 200 \<and> (200::real) < 300 \<and>
       timeAttenuation32 e 300 = timeAttenuation32 e 200) \<and>
   1 / 2 < speed * 200 \<and>
   round32 (exp (round32 (- dampT * 300))) = round32 (exp (round32 (- dampT * 200))) \<and>
   atten32 300 (1 / 2) = atten32 200 (1 / 2)"
proof -
  define e where "e = resize 800 600 init_E"
  have f: "uTimeDecay e = 8 / 10" "uWaveSpeed e = 35 / 100"
    by (simp_all add: e_def resize_def init_E_def)
  have a: "timeAttenuation32 e 300 = 0" "timeAttenuation32 e 200 = 0"
    by (rule timeAttenuation32_zero, simp add: f)+
  have b: "round32 (exp (round32 (- dampT * 300))) = 0" "round32 (exp (round32 (- dampT * 200))) = 0"
    by (rule time_factor32_zero, simp add: dampT_def)+
  have c: "atten32 300 (1 / 2) = 0" "atten32 200 (1 / 2) = 0"
    by (rule atten32_zero, simp)+
  have X: "0 < uTimeDecay e \<and> 1 / 2 < uWaveSpeed e * 200 \<and> (200::real) < 300 \<and>
       timeAttenuation32 e 300 = timeAttenuation32 e 200"
    by (simp add: f a)
  have Y: "1 / 2 < speed * 200" by (simp add: speed_def)
  have Z1: "round32 (exp (round32 (- dampT * 300))) = round32 (exp (round32 (- dampT * 200)))"
    by (simp only: b)
  have Z2: "atten32 300 (1 / 2) = atten32 200 (1 / 2)" by (simp only: c)
  have "(0 < uTimeDecay e \<and> 1 / 2 < uWaveSpeed e * 200 \<and> (200::real) < 300 \<and>
       timeAttenuation32 e 300 = timeAttenuation32 e 200) \<and>
      1 / 2 < speed * 200 \<and>
      round32 (exp (round32 (- dampT * 300))) = round32 (exp (round32 (- dampT * 200))) \<and>
      atten32 300 (1 / 2) = atten32 200 (1 / 2)"
    by (intro X Y Z1 Z2 conjI)
  then show ?thesis unfolding e_def Let_def .
qed

subsection \<open>After a clear\<close>

lemma feed_all_empty:
  assumes "\<forall>i<MAX_CLICKS. empty_slot (uClickPos u ! i)"
  shows "feed u uv = 0"
proof -
  have e: "{i. i < MAX_CLICKS \<and> \<not> empty_slot (uClickPos u ! i)} = {}" using assms by auto
  show ?thesis unfolding feed_eq_Max e by simp
qed

lemma totalWave_all_empty:
  assumes "\<forall>i<MAX_CLICKS_E. empty_slot (uClickPos u ! i)"
  shows "totalWave u uv = 0"
proof -
  have e: "{i. i < MAX_CLICKS_E \<and> \<not> empty_slot (uClickPos u ! i)} = {}" using assms by auto
  show ?thesis unfolding totalWave_eq_Max e by simp
qed

lemma smoothstep_below: "x \<le> e0 \<Longrightarrow> e0 < e1 \<Longrightarrow> smoothstep e0 e1 x = 0"
proof -
  assume a: "x \<le> e0" "e0 < e1"
  then have "(x - e0) / (e1 - e0) \<le> 0" by (simp add: divide_nonpos_pos)
  then have "clamp ((x - e0) / (e1 - e0)) 0 1 = 0" by (simp add: clamp_def)
  then show ?thesis by (simp add: smoothstep_def)
qed

lemma mix_0: "mix a b 0 = a"
  by (cases a, cases b) (simp add: mix_def)

lemma clearRipples_empty:
  assumes "MAX_CLICKS \<le> length (uClickPos u)"
  shows "\<forall>i<MAX_CLICKS. empty_slot (uClickPos (clearRipples u) ! i)"
  using assms by (simp add: clearRipples_def sentinel_def empty_slot_def)

lemma clearAllRipples_empty:
  assumes "MAX_CLICKS_E \<le> length (uClickPos e)"
  shows "\<forall>i<MAX_CLICKS_E. empty_slot (uClickPos (clearAllRipples e) ! i)"
  using assms by (simp add: clearAllRipples_def sentinel_def empty_slot_def)

lemma main_no_ripples:
  assumes "feed u (uv_of (uResolution u) (8 * PIXEL_SIZE) (fragCoord_of (uResolution u) gl)) = 0"
  shows "main u gl = (0, 0, 0, 1)"
proof -
  have "Bayer8 (vdivs (fragCoord_of (uResolution u) gl) PIXEL_SIZE) - 0.5 < 0.5"
    using Bayer8_range[of "vdivs (fragCoord_of (uResolution u) gl) PIXEL_SIZE"] by simp
  then show ?thesis using assms by (simp add: main_def Let_def step_def)
qed

lemma main_E_no_ripples:
  assumes tw: "totalWave e (uv_of (uResolution e) (CELL_PIXEL_SIZE * uPixelSize e)
                 (fragCoord_of (uResolution e) gl)) = 0"
    and bn: "blueNoise (vdivs (fragCoord_of (uResolution e) gl) (uPixelSize e)) \<le> 0.8"
  shows "main_E e gl =
     (case getAnimatedBackground e (uv_of (uResolution e) (CELL_PIXEL_SIZE * uPixelSize e)
             (fragCoord_of (uResolution e) gl)) of (r, g, b) \<Rightarrow> (r, g, b, 1))"
proof -
  let ?uv = "uv_of (uResolution e) (CELL_PIXEL_SIZE * uPixelSize e) (fragCoord_of (uResolution e) gl)"
  let ?c = "vdivs (fragCoord_of (uResolution e) gl) (uPixelSize e)"
  have mi: "maxIntensity e ?uv = 0" using tw by (simp add: maxIntensity_eq_totalWave)
  have d: "ditherValue 0 ?c = blueNoise ?c - 0.5" by (simp add: ditherValue_def)
  have "totalWave e ?uv + ditherValue (maxIntensity e ?uv) ?c \<le> 0.3"
    unfolding tw mi d using bn by simp
  then have s: "smoothstep 0.3 0.7 (totalWave e ?uv + ditherValue (maxIntensity e ?uv) ?c) = 0"
    by (rule smoothstep_below) simp
  show ?thesis unfolding main_E_def Let_def s by (simp add: mix_0)
qed

text \<open>
  After a clear of a registry whose position array has at least the capacity as its
  length, every slot is empty for the shaders: the aggregate intensity is 0 at every
  sample point, at every time and for every style configuration, in both variants, and
  a second clear changes nothing. In the basic shader every pixel is then the
  background colour \<open>(0, 0, 0, 1)\<close>. In the elaborated shader the dither value at
  intensity 0 is the blue noise, and (for a pixel size other than 0 and a resolution
  without a zero component) the pixel is the background colour wherever the blue noise
  is at most 0.8. Nothing is stated about the pixels where the blue noise is larger,
  because nothing is stated about the value of the blue noise at a pixel.
\<close>

lemma after_clear:
  "(MAX_CLICKS \<le> length (uClickPos u) \<longrightarrow>
      feed (clearRipples u) uv = 0 \<and> main (clearRipples u) gl = (0, 0, 0, 1)) \<and>
   clearRipples (clearRipples u) = clearRipples u \<and>
   (MAX_CLICKS_E \<le> length (uClickPos e) \<longrightarrow>
      totalWave (clearAllRipples e) uv = 0 \<and> maxIntensity (clearAllRipples e) uv = 0 \<and>
      (uPixelSize e \<noteq> 0 \<and> nonzero (uResolution e) \<and>
       blueNoise (vdivs (fragCoord_of (uResolution e) gl) (uPixelSize e)) \<le> 0.8 \<longrightarrow>
         main_E (clearAllRipples e) gl =
           (case getAnimatedBackground (clearAllRipples e)
                   (uv_of (uResolution e) (CELL_PIXEL_SIZE * uPixelSize e)
                      (fragCoord_of (uResolution e) gl))
            of (r, g, b) \<Rightarrow> (r, g, b, 1)))) \<and>
   clearAllRipples (clearAllRipples e) = clearAllRipples e"
proof (intro conjI impI)
  assume h: "MAX_CLICKS \<le> length (uClickPos u)"
  have f: "feed (clearRipples u) w = 0" for w
    by (rule feed_all_empty[OF clearRipples_empty[OF h]])
  show "feed (clearRipples u) uv = 0" by (rule f)
  show "main (clearRipples u) gl = (0, 0, 0, 1)" by (rule main_no_ripples) (rule f)
next
  show "clearRipples (clearRipples u) = clearRipples u" by (simp add: clearRipples_def)
  show "clearAllRipples (clearAllRipples e) = clearAllRipples e" by (simp add: clearAllRipples_def)
next
  assume h: "MAX_CLICKS_E \<le> length (uClickPos e)"
  have t: "totalWave (clearAllRipples e) w = 0" for w
    by (rule totalWave_all_empty[OF clearAllRipples_empty[OF h]])
  show "totalWave (clearAllRipples e) uv = 0" by (rule t)
  then show "maxIntensity (clearAllRipples e) uv = 0" by (simp add: maxIntensity_eq_totalWave)
  assume "uPixelSize e \<noteq> 0 \<and> nonzero (uResolution e) \<and>
       blueNoise (vdivs (fragCoord_of (uResolution e) gl) (uPixelSize e)) \<le> 0.8"
  then have bn: "blueNoise (vdivs (fragCoord_of (uResolution e) gl) (uPixelSize e)) \<le> 0.8"
    by simp
  have fl: "uResolution (clearAllRipples e) = uResolution e" "uPixelSize (clearAllRipples e) = uPixelSize e"
    by (simp_all add: clearAllRipples_def)
  from main_E_no_ripples[of "clearAllRipples e" gl] t bn
  show "main_E (clearAllRipples e) gl =
           (case getAnimatedBackground (clearAllRipples e)
                   (uv_of (uResolution e) (CELL_PIXEL_SIZE * uPixelSize e)
                      (fragCoord_of (uResolution e) gl))
            of (r, g, b) \<Rightarrow> (r, g, b, 1))"
    unfolding fl by simp
qed

end
